theory Spec2Isabelle
  imports Complex_Main "HOL-Library.Log_Nat"
begin

section \<open>Numbers, events and the canvas element\<close>

text \<open>
  The widget of \<^verbatim>\<open>src/block.tsx\<close> computes positions with JavaScript numbers, which
  are IEEE 754 binary64 values. A finite one is modelled by the rational it denotes; the
  three other constructors are the values that are not finite. The sign of zero is not
  modelled.
\<close>

datatype number = Num rat | Infinity | NegInfinity | NaN

definition pow2 :: "int \<Rightarrow> rat" where
  "pow2 k = (if 0 \<le> k then 2 ^ nat k else 1 / 2 ^ nat (- k))"

text \<open>The binary exponent of a positive rational \<open>a\<close>: \<open>pow2 (ilog2 a) \<le> a < pow2 (ilog2 a + 1)\<close>.\<close>

definition ilog2 :: "rat \<Rightarrow> int" where
  "ilog2 a =
     (let k = bitlen (fst (quotient_of a)) - bitlen (snd (quotient_of a))
      in if pow2 k \<le> a then k else k - 1)"

definition roundHalfEven :: "rat \<Rightarrow> int" where
  "roundHalfEven m =
     (let f = \<lfloor>m\<rfloor>; r = m - of_int f
      in if r < 1 / 2 then f else if 1 / 2 < r then f + 1 else if even f then f else f + 1)"

text \<open>
  \<open>fl v\<close> is the double nearest to the exact result \<open>v\<close> of an operation, ties going to
  the even significand: 53 significant bits, exponents from -1022 (below which the
  spacing stays \<open>pow2 (- 1074)\<close>, so that tiny results lose bits and may become zero) to
  1023 (above which the result is infinite).
\<close>

definition fl :: "rat \<Rightarrow> number" where
  "fl v =
     (if v = 0 then Num 0
      else
        let a = \<bar>v\<bar>;
            e = max (ilog2 a) (- 1022);
            n = roundHalfEven (a / pow2 (e - 52))
        in if 1023 < e \<or> (e = 1023 \<and> 2 ^ 53 \<le> n)
           then (if 0 < v then Infinity else NegInfinity)
           else Num ((if 0 < v then 1 else - 1) * (of_int n * pow2 (e - 52))))"

text \<open>
  The three operations of \<^verbatim>\<open>getPosition\<close>. The subtraction and the division take
  finite operands (client coordinates, the bounding box, the canvas size); the
  multiplication takes their results, which may be infinite or NaN.
\<close>

definition jsSub :: "rat \<Rightarrow> rat \<Rightarrow> number" where
  "jsSub a b = fl (a - b)"

definition jsDiv :: "rat \<Rightarrow> rat \<Rightarrow> number" where
  "jsDiv a b =
     (if b \<noteq> 0 then fl (a / b)
      else if a = 0 then NaN
      else if 0 < a then Infinity else NegInfinity)"

definition infinityTimes :: "rat \<Rightarrow> number" where
  "infinityTimes a = (if a = 0 then NaN else if 0 < a then Infinity else NegInfinity)"

fun jsMul :: "number \<Rightarrow> number \<Rightarrow> number" where
  "jsMul (Num a) (Num b) = fl (a * b)"
| "jsMul NaN _ = NaN"
| "jsMul _ NaN = NaN"
| "jsMul (Num a) Infinity = infinityTimes a"
| "jsMul (Num a) NegInfinity = infinityTimes (- a)"
| "jsMul Infinity (Num b) = infinityTimes b"
| "jsMul NegInfinity (Num b) = infinityTimes (- b)"
| "jsMul Infinity Infinity = Infinity"
| "jsMul Infinity NegInfinity = NegInfinity"
| "jsMul NegInfinity Infinity = NegInfinity"
| "jsMul NegInfinity NegInfinity = Infinity"

text \<open>A position \<^verbatim>\<open>{ x, y }\<close> is the pair of its two coordinates.\<close>

type_synonym pos = "number \<times> number"

text \<open>
  An input event is a mouse event with its \<^verbatim>\<open>clientX\<close> and \<^verbatim>\<open>clientY\<close>, or a touch
  event with the client coordinates of its \<^verbatim>\<open>touches\<close>, in order.
\<close>

datatype event = MouseEvent rat rat | TouchEvent "(rat \<times> rat) list"

datatype error = TypeError

record domrect =
  rect_left :: rat
  rect_top :: rat
  rect_width :: rat
  rect_height :: rat

text \<open>
  The content of the surface is the sequence of paint operations that produced its
  pixels since it was last blank: the empty sequence is the blank (fully transparent)
  surface. A stroke records the path and the line style it was painted with.
\<close>

datatype paint =
  Stroke "(rat \<times> rat) list list" string int string string
| Erase rat rat rat rat

text \<open>
  The canvas element together with the state of its 2D context. \<open>has2d\<close> says that
  \<^verbatim>\<open>getContext('2d')\<close> yields a context; \<open>rect\<close> is what
  \<^verbatim>\<open>getBoundingClientRect()\<close> returns.
\<close>

record canvas =
  canvas_width :: nat
  canvas_height :: nat
  rect :: domrect
  has2d :: bool
  path :: "(rat \<times> rat) list list"
  strokeStyle :: string
  lineWidth :: int
  lineCap :: string
  lineJoin :: string
  bitmap :: "paint list"

definition beginPath :: "canvas \<Rightarrow> canvas" where
  "beginPath c = c\<lparr>path := []\<rparr>"

text \<open>\<^verbatim>\<open>moveTo\<close> and \<^verbatim>\<open>lineTo\<close> return at once when an argument is infinite or NaN.\<close>

fun moveTo :: "number \<Rightarrow> number \<Rightarrow> canvas \<Rightarrow> canvas" where
  "moveTo (Num a) (Num b) c = c\<lparr>path := path c @ [[(a, b)]]\<rparr>"
| "moveTo _ _ c = c"

fun lineTo :: "number \<Rightarrow> number \<Rightarrow> canvas \<Rightarrow> canvas" where
  "lineTo (Num a) (Num b) c =
     (if path c = [] then c\<lparr>path := [[(a, b)]]\<rparr>
      else c\<lparr>path := butlast (path c) @ [last (path c) @ [(a, b)]]\<rparr>)"
| "lineTo _ _ c = c"

definition stroke :: "canvas \<Rightarrow> canvas" where
  "stroke c =
     c\<lparr>bitmap := bitmap c @
        [Stroke (path c) (strokeStyle c) (lineWidth c) (lineCap c) (lineJoin c)]\<rparr>"

text \<open>
  \<^verbatim>\<open>clearRect\<close> makes the pixels of the rectangle transparent. When the rectangle covers
  the whole bitmap the surface is blank again; otherwise the erasure is one more
  paint operation.
\<close>

definition clearRect :: "rat \<Rightarrow> rat \<Rightarrow> rat \<Rightarrow> rat \<Rightarrow> canvas \<Rightarrow> canvas" where
  "clearRect rx ry rw rh c =
     (if rx \<le> 0 \<and> ry \<le> 0 \<and> of_nat (canvas_width c) \<le> rx + rw
         \<and> of_nat (canvas_height c) \<le> ry + rh
      then c\<lparr>bitmap := []\<rparr>
      else c\<lparr>bitmap := bitmap c @ [Erase rx ry rw rh]\<rparr>)"

text \<open>
  \<^verbatim>\<open>canvas.width\<close> and \<^verbatim>\<open>canvas.height\<close> are \<^verbatim>\<open>unsigned long\<close> attributes. The number
  assigned is truncated towards zero and taken modulo \<open>2 ^ 32\<close>; a result above
  \<open>2 ^ 31 - 1\<close> is replaced by the default of the attribute, 300 for the width and 150
  for the height.
\<close>

definition toUnsignedLong :: "rat \<Rightarrow> int" where
  "toUnsignedLong v = (if 0 \<le> v then \<lfloor>v\<rfloor> else - \<lfloor>- v\<rfloor>) mod 2 ^ 32"

definition limited :: "int \<Rightarrow> int \<Rightarrow> nat" where
  "limited fallback n = nat (if 2147483647 < n then fallback else n)"

text \<open>
  Assigning either attribute of a canvas with a 2D context sets the bitmap dimensions,
  also when the value assigned is the one the attribute already has: the context is
  reset to its default state and the bitmap is cleared.
\<close>

definition resetContext :: "canvas \<Rightarrow> canvas" where
  "resetContext c =
     c\<lparr>path := [], strokeStyle := ''#000000'', lineWidth := 1,
       lineCap := ''butt'', lineJoin := ''miter'', bitmap := []\<rparr>"

definition set_canvas_width :: "rat \<Rightarrow> canvas \<Rightarrow> canvas" where
  "set_canvas_width v c =
     (if has2d c then resetContext (c\<lparr>canvas_width := limited 300 (toUnsignedLong v)\<rparr>)
      else c\<lparr>canvas_width := limited 300 (toUnsignedLong v)\<rparr>)"

definition set_canvas_height :: "rat \<Rightarrow> canvas \<Rightarrow> canvas" where
  "set_canvas_height v c =
     (if has2d c then resetContext (c\<lparr>canvas_height := limited 150 (toUnsignedLong v)\<rparr>)
      else c\<lparr>canvas_height := limited 150 (toUnsignedLong v)\<rparr>)"

text \<open>A canvas element as the browser creates it, laid out at the given box.\<close>

definition freshCanvas :: "domrect \<Rightarrow> canvas" where
  "freshCanvas r =
     \<lparr>canvas_width = 300, canvas_height = 150, rect = r, has2d = True, path = [],
      strokeStyle = ''#000000'', lineWidth = 1, lineCap = ''butt'', lineJoin = ''miter'',
      bitmap = []\<rparr>"

section \<open>The component\<close>

text \<open>
  \<^verbatim>\<open>BlockProps\<close>: each of the three properties is optional; the destructuring of
  \<^verbatim>\<open>Block\<close> supplies the default of a property that is absent.
\<close>

record BlockProps =
  title :: "string option"
  width :: "rat option"
  height :: "rat option"

definition Block_title :: "BlockProps \<Rightarrow> string" where
  "Block_title p = (case title p of None \<Rightarrow> ''Simple Whiteboard'' | Some t \<Rightarrow> t)"

definition Block_width :: "BlockProps \<Rightarrow> rat" where
  "Block_width p = (case width p of None \<Rightarrow> 800 | Some n \<Rightarrow> n)"

definition Block_height :: "BlockProps \<Rightarrow> rat" where
  "Block_height p = (case height p of None \<Rightarrow> 600 | Some n \<Rightarrow> n)"

definition colors :: "string list" where
  "colors =
     [''#000000'', ''#FF0000'', ''#00FF00'', ''#0000FF'', ''#FFFF00'',
      ''#FF00FF'', ''#00FFFF'', ''#FFA500'', ''#800080'', ''#008000'',
      ''#800000'', ''#808080'', ''#FFC0CB'', ''#A52A2A'', ''#FFFFFF'']"

record message =
  msg_type :: string
  blockId :: string
  completed :: bool

datatype target = Window | Parent

datatype posting = PostMessage target message string

text \<open>
  Everything the component reads and writes. \<open>isDrawing\<close>, \<open>currentColor\<close>,
  \<open>brushSize\<close> and \<open>lastPos\<close> are the four \<^verbatim>\<open>useState\<close> cells; \<open>lastPosRef\<close> is the
  identity of the object held in \<open>lastPos\<close> (React compares dependencies with
  \<^verbatim>\<open>Object.is\<close>, and every position is a new object). \<open>canvasRef\<close> is
  \<^verbatim>\<open>canvasRef.current\<close>. \<open>prevented\<close> counts the calls of \<^verbatim>\<open>preventDefault\<close>,
  \<open>posted\<close> lists the calls of \<^verbatim>\<open>postMessage\<close>. \<open>listening\<close> says that the listeners
  of the set-up effect are attached; \<open>renderedDraw\<close> holds the dependencies of the
  \<^verbatim>\<open>draw\<close> callback that effect last ran with, \<open>completionDeps\<close> the dependency the
  completion effect last ran with.
\<close>

record world =
  props :: BlockProps
  isDrawing :: bool
  currentColor :: string
  brushSize :: int
  lastPos :: pos
  lastPosRef :: nat
  canvasRef :: "canvas option"
  prevented :: nat
  posted :: "posting list"
  listening :: bool
  renderedDraw :: "(bool \<times> nat \<times> string \<times> int) option"
  completionDeps :: "bool option"

datatype result = Done world | Thrown error world

fun world_of :: "result \<Rightarrow> world" where
  "world_of (Done w) = w"
| "world_of (Thrown e w) = w"

definition preventDefault :: "world \<Rightarrow> world" where
  "preventDefault w = w\<lparr>prevented := Suc (prevented w)\<rparr>"

definition setIsDrawing :: "bool \<Rightarrow> world \<Rightarrow> world" where
  "setIsDrawing b w = w\<lparr>isDrawing := b\<rparr>"

definition setCurrentColor :: "string \<Rightarrow> world \<Rightarrow> world" where
  "setCurrentColor c w = w\<lparr>currentColor := c\<rparr>"

definition setBrushSize :: "int \<Rightarrow> world \<Rightarrow> world" where
  "setBrushSize n w = w\<lparr>brushSize := n\<rparr>"

definition setLastPos :: "pos \<Rightarrow> world \<Rightarrow> world" where
  "setLastPos p w = w\<lparr>lastPos := p, lastPosRef := Suc (lastPosRef w)\<rparr>"

definition getContext :: "world \<Rightarrow> canvas option" where
  "getContext w =
     (case canvasRef w of
        None \<Rightarrow> None
      | Some canvas \<Rightarrow> if has2d canvas then Some canvas else None)"

text \<open>
  \<^verbatim>\<open>getPosition\<close>. Reading \<^verbatim>\<open>e.touches[0].clientX\<close> of a touch event without touches
  throws a \<^verbatim>\<open>TypeError\<close>.
\<close>

definition getPosition :: "event \<Rightarrow> world \<Rightarrow> error + pos" where
  "getPosition e w =
     (case canvasRef w of
        None \<Rightarrow> Inr (Num 0, Num 0)
      | Some canvas \<Rightarrow>
          let r = rect canvas;
              scaleX = jsDiv (of_nat (canvas_width canvas)) (rect_width r);
              scaleY = jsDiv (of_nat (canvas_height canvas)) (rect_height r)
          in (case e of
                TouchEvent touches \<Rightarrow>
                  (case touches of
                     [] \<Rightarrow> Inl TypeError
                   | t # _ \<Rightarrow>
                       Inr (jsMul (jsSub (fst t) (rect_left r)) scaleX,
                            jsMul (jsSub (snd t) (rect_top r)) scaleY))
              | MouseEvent clientX clientY \<Rightarrow>
                  Inr (jsMul (jsSub clientX (rect_left r)) scaleX,
                       jsMul (jsSub clientY (rect_top r)) scaleY)))"

definition startDrawing :: "event \<Rightarrow> world \<Rightarrow> result" where
  "startDrawing e w =
     (let w1 = preventDefault w in
      case getPosition e w1 of
        Inl err \<Rightarrow> Thrown err w1
      | Inr p \<Rightarrow> Done (setLastPos p (setIsDrawing True w1)))"

definition draw :: "event \<Rightarrow> world \<Rightarrow> result" where
  "draw e w =
     (if \<not> isDrawing w then Done w
      else
        let w1 = preventDefault w in
        case getContext w1 of
          None \<Rightarrow> Done w1
        | Some ctx \<Rightarrow>
            (case getPosition e w1 of
               Inl err \<Rightarrow> Thrown err w1
             | Inr currentPos \<Rightarrow>
                 let c1 = beginPath ctx;
                     c2 = moveTo (fst (lastPos w1)) (snd (lastPos w1)) c1;
                     c3 = lineTo (fst currentPos) (snd currentPos) c2;
                     c4 = c3\<lparr>strokeStyle := currentColor w1\<rparr>;
                     c5 = c4\<lparr>lineWidth := brushSize w1\<rparr>;
                     c6 = c5\<lparr>lineCap := ''round''\<rparr>;
                     c7 = c6\<lparr>lineJoin := ''round''\<rparr>;
                     c8 = stroke c7
                 in Done (setLastPos currentPos (w1\<lparr>canvasRef := Some c8\<rparr>))))"

definition stopDrawing :: "world \<Rightarrow> world" where
  "stopDrawing w = setIsDrawing False w"

definition clearCanvas :: "world \<Rightarrow> world" where
  "clearCanvas w =
     (case getContext w of
        None \<Rightarrow> w
      | Some ctx \<Rightarrow>
          (case canvasRef w of
             None \<Rightarrow> w
           | Some canvas \<Rightarrow>
               w\<lparr>canvasRef :=
                    Some (clearRect 0 0 (of_nat (canvas_width canvas))
                            (of_nat (canvas_height canvas)) ctx)\<rparr>))"

subsection \<open>Effects and rendering\<close>

text \<open>
  The set-up effect: it returns early without a canvas or a context; otherwise it
  assigns the canvas size, sets the line style and attaches the listeners. Its
  clean-up detaches them.
\<close>

definition setupEffect :: "world \<Rightarrow> world" where
  "setupEffect w =
     (case canvasRef w of
        None \<Rightarrow> w
      | Some canvas \<Rightarrow>
          if \<not> has2d canvas then w
          else
            let c1 = set_canvas_width (Block_width (props w)) canvas;
                c2 = set_canvas_height (Block_height (props w)) c1;
                c3 = c2\<lparr>lineCap := ''round''\<rparr>;
                c4 = c3\<lparr>lineJoin := ''round''\<rparr>
            in w\<lparr>canvasRef := Some c4, listening := True\<rparr>)"

definition setupCleanup :: "world \<Rightarrow> world" where
  "setupCleanup w = w\<lparr>listening := False\<rparr>"

definition completionEffect :: "world \<Rightarrow> world" where
  "completionEffect w =
     (if isDrawing w
      then w\<lparr>posted := posted w @
             [PostMessage Window
                \<lparr>msg_type = ''BLOCK_COMPLETION'', blockId = ''685334c2157dfa0de308d307'',
                 completed = True\<rparr> ''*'',
              PostMessage Parent
                \<lparr>msg_type = ''BLOCK_COMPLETION'', blockId = ''685334c2157dfa0de308d307'',
                 completed = True\<rparr> ''*'']\<rparr>
      else w)"

text \<open>
  The dependencies of \<^verbatim>\<open>useCallback\<close> for \<^verbatim>\<open>draw\<close> that can change: \<^verbatim>\<open>getContext\<close>
  and \<^verbatim>\<open>getPosition\<close> have no dependencies and never change.
\<close>

definition drawDeps :: "world \<Rightarrow> bool \<times> nat \<times> string \<times> int" where
  "drawDeps w = (isDrawing w, lastPosRef w, currentColor w, brushSize w)"

text \<open>
  A render followed by its effects. Of the dependencies of the set-up effect,
  \<^verbatim>\<open>[width, height, startDrawing, draw, stopDrawing]\<close>, only \<^verbatim>\<open>draw\<close> changes during
  the life of a component with fixed properties, and it changes exactly when one of
  its own dependencies does. The completion effect depends on \<^verbatim>\<open>isDrawing\<close>. An
  effect runs on the first render and whenever a dependency has changed; a re-run is
  preceded by the clean-up.
\<close>

definition commit :: "world \<Rightarrow> world" where
  "commit w =
     (let w1 = (if renderedDraw w = Some (drawDeps w) then w
                else (setupEffect (setupCleanup w))\<lparr>renderedDraw := Some (drawDeps w)\<rparr>);
          w2 = (if completionDeps w1 = Some (isDrawing w1) then w1
                else (completionEffect w1)\<lparr>completionDeps := Some (isDrawing w1)\<rparr>)
      in w2)"

definition mount :: "BlockProps \<Rightarrow> canvas option \<Rightarrow> world" where
  "mount p cv =
     commit
       \<lparr>props = p, isDrawing = False, currentColor = ''#000000'', brushSize = 3,
        lastPos = (Num 0, Num 0), lastPosRef = 0, canvasRef = cv, prevented = 0,
        posted = [], listening = False, renderedDraw = None, completionDeps = None\<rparr>"

subsection \<open>User actions\<close>

text \<open>
  The seven listeners on the canvas, a click on the palette button of an index, a
  change of the slider and a click on the clear button. The slider is an
  \<^verbatim>\<open>input type="range" min="1" max="20"\<close>: the browser keeps its value within these
  bounds, and \<^verbatim>\<open>parseInt\<close> reads that integer back.
\<close>

datatype action =
  Mousedown rat rat
| Mousemove rat rat
| Mouseup
| Mouseleave
| Touchstart "(rat \<times> rat) list"
| Touchmove "(rat \<times> rat) list"
| Touchend
| ColorClick nat
| SizeChange int
| ClearClick

definition rangeValue :: "int \<Rightarrow> int" where
  "rangeValue v = (if v < 1 then 1 else if 20 < v then 20 else v)"

fun handle :: "action \<Rightarrow> world \<Rightarrow> result" where
  "handle (Mousedown cx cy) w = (if listening w then startDrawing (MouseEvent cx cy) w else Done w)"
| "handle (Mousemove cx cy) w = (if listening w then draw (MouseEvent cx cy) w else Done w)"
| "handle Mouseup w = (if listening w then Done (stopDrawing w) else Done w)"
| "handle Mouseleave w = (if listening w then Done (stopDrawing w) else Done w)"
| "handle (Touchstart ts) w = (if listening w then startDrawing (TouchEvent ts) w else Done w)"
| "handle (Touchmove ts) w = (if listening w then draw (TouchEvent ts) w else Done w)"
| "handle Touchend w = (if listening w then Done (stopDrawing w) else Done w)"
| "handle (ColorClick i) w =
     (if i < length colors then Done (setCurrentColor (colors ! i) w) else Done w)"
| "handle (SizeChange v) w = Done (setBrushSize (rangeValue v) w)"
| "handle ClearClick w = Done (clearCanvas w)"

definition step :: "action \<Rightarrow> world \<Rightarrow> world" where
  "step a w = commit (world_of (handle a w))"

fun run :: "world \<Rightarrow> action list \<Rightarrow> world" where
  "run w [] = w"
| "run w (a # as) = run (step a w) as"

subsection \<open>Sample inputs\<close>

text \<open>
  A component constructed without parameters, and a new canvas shown at half its
  final buffer size, 400 by 300 CSS pixels with its corner at (100, 50).
\<close>

abbreviation (input) defaultProps :: BlockProps where
  "defaultProps \<equiv> \<lparr>title = None, width = None, height = None\<rparr>"

abbreviation (input) sampleCanvas :: canvas where
  "sampleCanvas \<equiv>
     freshCanvas \<lparr>rect_left = 100, rect_top = 50, rect_width = 400, rect_height = 300\<rparr>"

section \<open>Rounding to doubles\<close>

text \<open>
  \<open>fl\<close> returns a value within half a unit in the last place of its argument: the
  error is at most the fraction \<open>1 / 2 ^ 53\<close> of the argument wherever that is at least
  \<open>pow2 (- 1022)\<close>, and the result is finite below \<open>pow2 1023\<close>.
\<close>

lemma pow2_powi: "pow2 k = 2 powi k"
  by (simp add: pow2_def power_int_def inverse_eq_divide power_one_over)

lemma pow2_pos: "0 < pow2 k"
  by (simp add: pow2_powi)

lemma pow2_add: "pow2 (j + k) = pow2 j * pow2 k"
  by (simp add: pow2_powi power_int_add)

lemma pow2_mono: "j \<le> k \<Longrightarrow> pow2 j \<le> pow2 k"
  by (simp add: pow2_powi power_int_increasing)

lemma pow2_less_imp: "pow2 j < pow2 k \<Longrightarrow> j < k"
  using pow2_mono [of k j] by (cases "j < k") auto

lemma pow2_nat: "pow2 (int n) = 2 ^ n"
  by (simp add: pow2_def)

lemma pow2_diff: "pow2 (j - k) = pow2 j / pow2 k"
  by (simp add: pow2_powi power_int_diff)

lemma ilog2_bounds:
  assumes "0 < a"
  shows "pow2 (ilog2 a) \<le> a \<and> a < pow2 (ilog2 a + 1)"
proof -
  obtain p q where pq: "quotient_of a = (p, q)"
    by (cases "quotient_of a")
  have q: "0 < q" using pq by (rule quotient_of_denom_pos)
  have a: "a = of_int p / of_int q" using pq by (rule quotient_of_div)
  have p: "0 < p"
    using assms q unfolding a by (simp add: zero_less_divide_iff)
  define k where "k = bitlen p - bitlen q"
  have bp: "2 ^ nat (bitlen p - 1) \<le> p" "p < 2 ^ nat (bitlen p)"
    using bitlen_bounds [OF p] by auto
  have bq: "2 ^ nat (bitlen q - 1) \<le> q" "q < 2 ^ nat (bitlen q)"
    using bitlen_bounds [OF q] by auto
  have lp: "1 \<le> bitlen p" and lq: "1 \<le> bitlen q"
    using p q by (auto simp: bitlen_alt_def)
  have rp: "pow2 (bitlen p - 1) \<le> of_int p" "of_int p < pow2 (bitlen p)"
  proof -
    have "(of_int (2 ^ nat (bitlen p - 1)) :: rat) \<le> of_int p"
      using bp(1) by (simp only: of_int_le_iff)
    then show "pow2 (bitlen p - 1) \<le> of_int p"
      using lp by (simp add: pow2_def)
    have "(of_int p :: rat) < of_int (2 ^ nat (bitlen p))"
      using bp(2) by (simp only: of_int_less_iff)
    then show "of_int p < pow2 (bitlen p)"
      using lp by (simp add: pow2_def)
  qed
  have rq: "pow2 (bitlen q - 1) \<le> of_int q" "of_int q < pow2 (bitlen q)"
  proof -
    have "(of_int (2 ^ nat (bitlen q - 1)) :: rat) \<le> of_int q"
      using bq(1) by (simp only: of_int_le_iff)
    then show "pow2 (bitlen q - 1) \<le> of_int q"
      using lq by (simp add: pow2_def)
    have "(of_int q :: rat) < of_int (2 ^ nat (bitlen q))"
      using bq(2) by (simp only: of_int_less_iff)
    then show "of_int q < pow2 (bitlen q)"
      using lq by (simp add: pow2_def)
  qed
  have qpos: "(0::rat) < of_int q" using q by simp
  have lower: "pow2 (k - 1) \<le> a"
  proof -
    have "pow2 (k - 1) = pow2 (bitlen p - 1) / pow2 (bitlen q)"
      by (simp add: k_def pow2_diff [symmetric] algebra_simps)
    also have "\<dots> \<le> of_int p / of_int q"
      using rp(1) rq(2) qpos pow2_pos [of "bitlen p - 1"]
      by (intro frac_le) auto
    finally show ?thesis by (simp add: a)
  qed
  have upper: "a < pow2 (k + 1)"
  proof -
    have "of_int p / of_int q < pow2 (bitlen p) / pow2 (bitlen q - 1)"
      using rp(2) rq(1) qpos pow2_pos [of "bitlen q - 1"] p
      by (intro frac_less) auto
    also have "\<dots> = pow2 (k + 1)"
      by (simp add: k_def pow2_diff [symmetric] algebra_simps)
    finally show ?thesis by (simp add: a)
  qed
  have i: "ilog2 a = (if pow2 k \<le> a then k else k - 1)"
    by (simp add: ilog2_def pq k_def Let_def)
  show ?thesis
    using lower upper by (auto simp: i)
qed

lemma roundHalfEven_error: "\<bar>of_int (roundHalfEven m) - m\<bar> \<le> 1 / 2"
proof -
  have "of_int \<lfloor>m\<rfloor> \<le> m" "m < of_int \<lfloor>m\<rfloor> + 1"
    by linarith+
  then show ?thesis
    unfolding roundHalfEven_def Let_def by (auto simp: abs_if; linarith)
qed

lemma roundHalfEven_nonneg: "0 \<le> m \<Longrightarrow> 0 \<le> roundHalfEven m"
  by (auto simp: roundHalfEven_def Let_def)

lemma fl_error:
  assumes "fl v = Num r" and "v \<noteq> 0"
  shows "\<bar>r - v\<bar> \<le> pow2 (max (ilog2 \<bar>v\<bar>) (- 1022) - 53)"
proof -
  define e where "e = max (ilog2 \<bar>v\<bar>) (- 1022)"
  define q where "q = pow2 (e - 52)"
  define n where "n = roundHalfEven (\<bar>v\<bar> / q)"
  have flv: "fl v =
      (if 1023 < e \<or> (e = 1023 \<and> 2 ^ 53 \<le> n)
       then (if 0 < v then Infinity else NegInfinity)
       else Num ((if 0 < v then 1 else - 1) * (of_int n * q)))"
    using assms(2) unfolding fl_def Let_def e_def q_def n_def by simp
  have q: "0 < q" by (simp add: q_def pow2_pos)
  have r: "r = (if 0 < v then 1 else - 1) * (of_int n * q)"
    using assms(1) unfolding flv by (simp split: if_splits)
  have "\<bar>of_int n - \<bar>v\<bar> / q\<bar> \<le> 1 / 2"
    unfolding n_def by (rule roundHalfEven_error)
  then have "\<bar>of_int n - \<bar>v\<bar> / q\<bar> * q \<le> 1 / 2 * q"
    using q by (intro mult_right_mono) auto
  moreover have "\<bar>of_int n - \<bar>v\<bar> / q\<bar> * q = \<bar>of_int n * q - \<bar>v\<bar>\<bar>"
  proof -
    have "\<bar>of_int n - \<bar>v\<bar> / q\<bar> * q = \<bar>(of_int n - \<bar>v\<bar> / q) * q\<bar>"
      using q by (simp add: abs_mult)
    also have "(of_int n - \<bar>v\<bar> / q) * q = of_int n * q - \<bar>v\<bar>"
      using q by (simp add: left_diff_distrib)
    finally show ?thesis .
  qed
  ultimately have "\<bar>of_int n * q - \<bar>v\<bar>\<bar> \<le> q / 2"
    by simp
  moreover have "\<bar>r - v\<bar> = \<bar>of_int n * q - \<bar>v\<bar>\<bar>"
  proof (cases "0 < v")
    case True
    then show ?thesis by (simp add: r)
  next
    case False
    then have neg: "v < 0" using assms(2) by simp
    have "r - v = - (of_int n * q - \<bar>v\<bar>)"
      using neg by (simp add: r)
    then show ?thesis by (simp only: abs_minus_cancel)
  qed
  moreover have "q / 2 = pow2 (e - 53)"
  proof -
    have "pow2 (e - 52) = pow2 ((e - 53) + 1)" by simp
    also have "\<dots> = pow2 (e - 53) * 2"
      by (simp only: pow2_add) (simp add: pow2_def)
    finally show ?thesis by (simp add: q_def)
  qed
  ultimately show ?thesis
    by (simp add: e_def)
qed

lemma fl_relative:
  assumes "fl v = Num r" and "pow2 (- 1022) \<le> \<bar>v\<bar>"
  shows "\<bar>r - v\<bar> \<le> \<bar>v\<bar> / 2 ^ 53"
proof -
  have nz: "v \<noteq> 0"
    using assms(2) pow2_pos [of "- 1022"] by auto
  then have a: "0 < \<bar>v\<bar>" by simp
  note b = ilog2_bounds [OF a]
  have "pow2 (- 1022) < pow2 (ilog2 \<bar>v\<bar> + 1)"
    using assms(2) b by linarith
  then have "- 1022 < ilog2 \<bar>v\<bar> + 1"
    by (rule pow2_less_imp)
  then have e: "max (ilog2 \<bar>v\<bar>) (- 1022) = ilog2 \<bar>v\<bar>"
    by simp
  have p53: "pow2 53 = 2 ^ 53"
    by (simp add: pow2_def)
  have "pow2 (ilog2 \<bar>v\<bar> - 53) = pow2 (ilog2 \<bar>v\<bar>) / 2 ^ 53"
    by (simp only: pow2_diff p53)
  also have "\<dots> \<le> \<bar>v\<bar> / 2 ^ 53"
    using b by (simp add: divide_right_mono)
  finally show ?thesis
    using fl_error [OF assms(1) nz] unfolding e by linarith
qed

lemma fl_finite:
  assumes "\<bar>v\<bar> < pow2 1023"
  shows "\<exists>r. fl v = Num r"
proof (cases "v = 0")
  case True
  then show ?thesis by (simp add: fl_def)
next
  case False
  then have a: "0 < \<bar>v\<bar>" by simp
  note b = ilog2_bounds [OF a]
  have "pow2 (ilog2 \<bar>v\<bar>) < pow2 1023"
    using assms b by linarith
  then have "ilog2 \<bar>v\<bar> < 1023"
    by (rule pow2_less_imp)
  then have "max (ilog2 \<bar>v\<bar>) (- 1022) < 1023"
    by simp
  then have "\<not> (1023 < max (ilog2 \<bar>v\<bar>) (- 1022)
      \<or> (max (ilog2 \<bar>v\<bar>) (- 1022) = 1023
          \<and> 2 ^ 53 \<le> roundHalfEven (\<bar>v\<bar> / pow2 (max (ilog2 \<bar>v\<bar>) (- 1022) - 52))))"
    by linarith
  then show ?thesis
    unfolding fl_def Let_def using False by (simp only: if_False) blast
qed

lemma fl_bound:
  assumes "fl v = Num r"
  shows "\<bar>r\<bar> \<le> 2 * \<bar>v\<bar> + 1"
proof (cases "pow2 (- 1022) \<le> \<bar>v\<bar>")
  case True
  have "\<bar>v\<bar> / 2 ^ 53 \<le> \<bar>v\<bar>"
    by (simp add: divide_le_eq)
  then show ?thesis
    using fl_relative [OF assms True] by linarith
next
  case False
  show ?thesis
  proof (cases "v = 0")
    case True
    then show ?thesis using assms by (simp add: fl_def)
  next
    case nz: False
    then have a: "0 < \<bar>v\<bar>" by simp
    note b = ilog2_bounds [OF a]
    have "pow2 (ilog2 \<bar>v\<bar>) < pow2 (- 1022)"
      using False b by linarith
    then have "ilog2 \<bar>v\<bar> < - 1022"
      by (rule pow2_less_imp)
    then have e: "max (ilog2 \<bar>v\<bar>) (- 1022) = - 1022"
      by simp
    have "pow2 (- 1022 - 53) \<le> pow2 0"
      by (rule pow2_mono) simp
    then have "pow2 (- 1022 - 53) \<le> 1"
      by (simp add: pow2_def)
    then show ?thesis
      using fl_error [OF assms nz] unfolding e by linarith
  qed
qed

lemma fl_lower_pos:
  assumes "fl v = Num r" and "pow2 (- 1022) \<le> v"
  shows "v * (1 - 1 / 2 ^ 53) \<le> r"
proof -
  have v: "0 < v" using assms(2) pow2_pos [of "- 1022"] by linarith
  have "\<bar>r - v\<bar> \<le> \<bar>v\<bar> / 2 ^ 53"
    using assms v by (intro fl_relative) simp_all
  then have "v - v / 2 ^ 53 \<le> r"
    using v by linarith
  then show ?thesis by (simp add: algebra_simps)
qed

lemma fl_upper_pos:
  assumes "fl v = Num r" and "pow2 (- 1022) \<le> v"
  shows "r \<le> v * (1 + 1 / 2 ^ 53)"
proof -
  have v: "0 < v" using assms(2) pow2_pos [of "- 1022"] by linarith
  have "\<bar>r - v\<bar> \<le> \<bar>v\<bar> / 2 ^ 53"
    using assms v by (intro fl_relative) simp_all
  then have "r \<le> v + v / 2 ^ 53"
    using v by linarith
  then show ?thesis by (simp add: algebra_simps)
qed

lemma fl_upper_neg:
  assumes "fl v = Num r" and "v \<le> - pow2 (- 1022)"
  shows "r \<le> v * (1 - 1 / 2 ^ 53)"
proof -
  have v: "v < 0" using assms(2) pow2_pos [of "- 1022"] by linarith
  have "\<bar>r - v\<bar> \<le> \<bar>v\<bar> / 2 ^ 53"
    using assms v by (intro fl_relative) simp_all
  then have "r \<le> v - v / 2 ^ 53"
    using v by linarith
  then show ?thesis by (simp add: algebra_simps)
qed

lemma pow2_500_facts:
  "pow2 (- 1022) \<le> pow2 (- 500)" "pow2 500 < pow2 1023" "1 \<le> pow2 500"
  "2 * pow2 500 + 1 \<le> pow2 502" "pow2 502 * pow2 502 < pow2 1023"
  "pow2 (- 500) * pow2 (- 500) = pow2 (- 1000)"
  "pow2 (- 1022) \<le> pow2 (- 1000) * ((1 - 1 / 2 ^ 53) * (1 - 1 / 2 ^ 53))"
proof -
  show "pow2 (- 1022) \<le> pow2 (- 500)" by (rule pow2_mono) simp
  have "pow2 500 \<le> pow2 1022" by (rule pow2_mono) simp
  moreover have "pow2 1023 = pow2 1022 * 2"
    using pow2_add [of 1022 1] by (simp add: pow2_def)
  ultimately show "pow2 500 < pow2 1023"
    using pow2_pos [of 1022] by linarith
  have "pow2 0 \<le> pow2 500" by (rule pow2_mono) simp
  then show one: "1 \<le> pow2 500" by (simp add: pow2_def)
  have "pow2 502 = pow2 500 * 4"
    using pow2_add [of 500 2] by (simp add: pow2_def)
  then show "2 * pow2 500 + 1 \<le> pow2 502"
    using one by linarith
  have "pow2 502 * pow2 502 = pow2 1004"
    using pow2_add [of 502 502] by simp
  moreover have "pow2 1004 \<le> pow2 1022" by (rule pow2_mono) simp
  moreover have "pow2 1023 = pow2 1022 * 2"
    using pow2_add [of 1022 1] by (simp add: pow2_def)
  ultimately show "pow2 502 * pow2 502 < pow2 1023"
    using pow2_pos [of 1022] by linarith
  show "pow2 (- 500) * pow2 (- 500) = pow2 (- 1000)"
    using pow2_add [of "- 500" "- 500"] by simp
  have "pow2 (- 1022) = pow2 (- 1000) * pow2 (- 22)"
    using pow2_add [of "- 1000" "- 22"] by simp
  moreover have "pow2 (- 22) \<le> (1 - 1 / 2 ^ 53) * (1 - 1 / 2 ^ 53)"
    by (simp add: pow2_def)
  ultimately show "pow2 (- 1022) \<le> pow2 (- 1000) * ((1 - 1 / 2 ^ 53) * (1 - 1 / 2 ^ 53))"
    using pow2_pos [of "- 1000"] by (simp add: mult_left_mono)
qed

lemma scale_cubed: "1 < (1 + 1 / 2 ^ 50) * ((1 - 1 / 2 ^ 53) * ((1 - 1 / 2 ^ 53) * (1 - 1 / 2 ^ 53 :: rat)))"
  by simp

lemma scaled_axis:
  assumes "pow2 (- 500) \<le> s0" and "s0 \<le> pow2 500" and "\<bar>v\<bar> \<le> pow2 500"
  shows "\<exists>p. jsMul (fl v) (fl s0) = Num p
     \<and> (v \<le> - pow2 (- 500) \<longrightarrow> p < 0)
     \<and> (\<forall>t. pow2 (- 500) \<le> t \<and> t * (1 + 1 / 2 ^ 50) \<le> v \<longrightarrow> t * s0 < p)"
proof -
  define k :: rat where "k = 1 - 1 / 2 ^ 53"
  have k: "0 < k" "k \<le> 1" by (simp_all add: k_def)
  note f = pow2_500_facts
  have s0_pos: "0 < s0"
    using assms(1) pow2_pos [of "- 500"] by linarith
  have s0_norm: "pow2 (- 1022) \<le> s0"
    using assms(1) f(1) by linarith
  obtain s where s: "fl s0 = Num s"
    using fl_finite [of s0] assms(2) f(2) s0_pos by auto
  obtain d where d: "fl v = Num d"
    using fl_finite [of v] assms(3) f(2) by auto
  have s_lo: "s0 * k \<le> s"
    unfolding k_def using s s0_norm by (rule fl_lower_pos)
  have s_pos: "0 < s"
    using s_lo mult_pos_pos [OF s0_pos k(1)] by linarith
  have s_abs: "\<bar>s\<bar> \<le> pow2 502"
    using fl_bound [OF s] assms(2) s0_pos f(4) by linarith
  have d_abs: "\<bar>d\<bar> \<le> pow2 502"
    using fl_bound [OF d] assms(3) f(4) by linarith
  have "\<bar>d * s\<bar> \<le> pow2 502 * pow2 502"
    unfolding abs_mult using d_abs s_abs by (intro mult_mono) auto
  then have "\<bar>d * s\<bar> < pow2 1023"
    using f(5) by linarith
  then obtain p where p: "fl (d * s) = Num p"
    using fl_finite by blast
  have prod: "jsMul (fl v) (fl s0) = Num p"
    by (simp add: s d p)
  have left: "p < 0" if "v \<le> - pow2 (- 500)"
  proof -
    have vn: "v \<le> - pow2 (- 1022)"
      using that f(1) by linarith
    have v_neg: "v < 0"
      using that pow2_pos [of "- 500"] by linarith
    have d_hi: "d \<le> v * k"
      unfolding k_def using d vn by (rule fl_upper_neg)
    have d_neg: "d < 0"
      using d_hi mult_neg_pos [OF v_neg k(1)] by linarith
    have "d * s \<le> d * (s0 * k)"
      using s_lo d_neg by (intro mult_left_mono_neg) auto
    also have "\<dots> \<le> (v * k) * (s0 * k)"
      using d_hi s0_pos k(1) by (intro mult_right_mono) auto
    also have "\<dots> = (v * s0) * (k * k)"
      by (simp add: algebra_simps)
    also have "\<dots> \<le> (- pow2 (- 1000)) * (k * k)"
    proof -
      have "v * s0 \<le> (- pow2 (- 500)) * s0"
        using that s0_pos by (intro mult_right_mono) auto
      also have "\<dots> \<le> (- pow2 (- 500)) * pow2 (- 500)"
        using assms(1) pow2_pos [of "- 500"] by (intro mult_left_mono_neg) auto
      finally have "v * s0 \<le> - pow2 (- 1000)"
        using f(6) by simp
      then show ?thesis
        using k(1) by (intro mult_right_mono) auto
    qed
    finally have ds: "d * s \<le> - (pow2 (- 1000) * (k * k))"
      by simp
    then have dsn: "d * s \<le> - pow2 (- 1022)"
      using f(7) unfolding k_def by linarith
    have "p \<le> (d * s) * k"
      unfolding k_def using p dsn by (rule fl_upper_neg)
    moreover have "d * s < 0"
      using dsn pow2_pos [of "- 1022"] by linarith
    ultimately show ?thesis
      using mult_neg_pos [OF _ k(1), of "d * s"] by linarith
  qed
  have right: "t * s0 < p" if "pow2 (- 500) \<le> t \<and> t * (1 + 1 / 2 ^ 50) \<le> v" for t
  proof -
    have t_pos: "0 < t"
      using that pow2_pos [of "- 500"] by linarith
    have tv: "t \<le> v"
    proof -
      have "t * 1 \<le> t * (1 + 1 / 2 ^ 50)"
        using t_pos by (intro mult_left_mono) auto
      then show ?thesis using that by linarith
    qed
    have vn: "pow2 (- 1022) \<le> v"
      using that tv f(1) by linarith
    have v_pos: "0 < v"
      using tv t_pos by linarith
    have d_lo: "v * k \<le> d"
      unfolding k_def using d vn by (rule fl_lower_pos)
    have d_pos: "0 < d"
      using d_lo mult_pos_pos [OF v_pos k(1)] by linarith
    have "(v * k) * (s0 * k) \<le> d * s"
      using d_lo s_lo d_pos mult_pos_pos [OF s0_pos k(1)] by (intro mult_mono) auto
    then have ds_lo: "(v * s0) * (k * k) \<le> d * s"
      by (simp add: algebra_simps)
    have vs: "t * (1 + 1 / 2 ^ 50) * s0 \<le> v * s0"
      using that s0_pos by (intro mult_right_mono) auto
    have "pow2 (- 500) * pow2 (- 500) \<le> v * s0"
      using that tv assms(1) pow2_pos [of "- 500"] by (intro mult_mono) auto
    then have "pow2 (- 1000) * (k * k) \<le> (v * s0) * (k * k)"
      using k(1) f(6) by (intro mult_right_mono) auto
    then have dsn: "pow2 (- 1022) \<le> d * s"
      using ds_lo f(7) unfolding k_def by linarith
    have p_lo: "(d * s) * k \<le> p"
      unfolding k_def using p dsn by (rule fl_lower_pos)
    have "(v * s0) * (k * k) * k \<le> (d * s) * k"
      using ds_lo k(1) by (intro mult_right_mono) auto
    then have "(v * s0) * (k * (k * k)) \<le> p"
      using p_lo by (simp add: algebra_simps)
    moreover have "(t * (1 + 1 / 2 ^ 50) * s0) * (k * (k * k)) \<le> (v * s0) * (k * (k * k))"
    proof -
      have "0 \<le> k * (k * k)" using k(1) by simp
      then show ?thesis using vs by (rule mult_right_mono [rotated])
    qed
    moreover have "t * s0 < (t * (1 + 1 / 2 ^ 50) * s0) * (k * (k * k))"
    proof -
      have "(t * s0) * 1 < (t * s0) * ((1 + 1 / 2 ^ 50) * (k * (k * k)))"
        using t_pos s0_pos scale_cubed unfolding k_def
        by (intro mult_strict_left_mono) auto
      then show ?thesis by (simp add: algebra_simps)
    qed
    ultimately show ?thesis by linarith
  qed
  show ?thesis
    using prod left right by blast
qed

lemma corner_axis:
  assumes "1 \<le> W" and "W \<le> 2 ^ 32" and "0 < rw" and "fl rw = Num rw"
    and "pow2 (- 1022) \<le> W / rw" and "fl (W / rw) = Num sx"
  shows "\<exists>b. jsMul (fl rw) (Num sx) = Num b \<and> \<bar>b - W\<bar> \<le> W / 2 ^ 51"
proof -
  define k :: rat where "k = 1 - 1 / 2 ^ 53"
  define h :: rat where "h = 1 + 1 / 2 ^ 53"
  have k: "0 < k" and h: "0 < h" by (simp_all add: k_def h_def)
  have W: "0 < W" using assms(1) by linarith
  have scale: "rw * (W / rw) = W"
    using assms(3) by simp
  have s_lo: "(W / rw) * k \<le> sx"
    unfolding k_def using assms(6,5) by (rule fl_lower_pos)
  have s_hi: "sx \<le> (W / rw) * h"
    unfolding h_def using assms(6,5) by (rule fl_upper_pos)
  have lo: "W * k \<le> rw * sx"
  proof -
    have "rw * ((W / rw) * k) \<le> rw * sx"
      using s_lo assms(3) by (intro mult_left_mono) auto
    moreover have "rw * ((W / rw) * k) = W * k"
      using assms(3) by simp
    ultimately show ?thesis by simp
  qed
  have hi: "rw * sx \<le> W * h"
  proof -
    have "rw * sx \<le> rw * ((W / rw) * h)"
      using s_hi assms(3) by (intro mult_left_mono) auto
    moreover have "rw * ((W / rw) * h) = W * h"
      using assms(3) by simp
    ultimately show ?thesis by simp
  qed
  have half: "1 / 2 \<le> W * k"
  proof -
    have "1 * k \<le> W * k"
      using assms(1) k by (intro mult_right_mono) auto
    then show ?thesis by (simp add: k_def)
  qed
  have "pow2 (- 1022) \<le> pow2 (- 1)" by (rule pow2_mono) simp
  then have norm: "pow2 (- 1022) \<le> rw * sx"
    using half lo by (simp add: pow2_def)
  have "W * h \<le> 2 ^ 32 * h"
    using assms(2) h by (intro mult_right_mono) auto
  then have "rw * sx \<le> 2 ^ 33"
    using hi by (simp add: h_def)
  moreover have "(2::rat) ^ 33 = pow2 33" by (simp add: pow2_def)
  moreover have "pow2 33 \<le> pow2 1022" by (rule pow2_mono) simp
  moreover have "pow2 1023 = pow2 1022 * 2"
    using pow2_add [of 1022 1] by (simp add: pow2_def)
  ultimately have "rw * sx < pow2 1023"
    using pow2_pos [of 1022] by linarith
  moreover have "0 < rw * sx"
    using norm pow2_pos [of "- 1022"] by linarith
  ultimately have "\<bar>rw * sx\<bar> < pow2 1023" by simp
  then obtain b where b: "fl (rw * sx) = Num b"
    using fl_finite by blast
  have b_lo: "(rw * sx) * k \<le> b"
    unfolding k_def using b norm by (rule fl_lower_pos)
  have b_hi: "b \<le> (rw * sx) * h"
    unfolding h_def using b norm by (rule fl_upper_pos)
  have "(W * k) * k \<le> (rw * sx) * k"
    using lo k by (intro mult_right_mono) auto
  then have lower: "W * (k * k) \<le> b"
    using b_lo by (simp add: mult.assoc)
  have "(rw * sx) * h \<le> (W * h) * h"
    using hi h by (intro mult_right_mono) auto
  then have upper: "b \<le> W * (h * h)"
    using b_hi by (simp add: mult.assoc)
  have kk: "1 - 1 / 2 ^ 51 \<le> k * k" and hh: "h * h \<le> 1 + 1 / 2 ^ 51"
    by (simp_all add: k_def h_def)
  have "W * (1 - 1 / 2 ^ 51) \<le> W * (k * k)"
    using kk W by (intro mult_left_mono) auto
  moreover have "W * (h * h) \<le> W * (1 + 1 / 2 ^ 51)"
    using hh W by (intro mult_left_mono) auto
  ultimately have "W - W / 2 ^ 51 \<le> b \<and> b \<le> W + W / 2 ^ 51"
    using lower upper by (simp add: algebra_simps)
  then have "\<bar>b - W\<bar> \<le> W / 2 ^ 51"
    by linarith
  moreover have "jsMul (fl rw) (Num sx) = Num b"
    by (simp add: assms(4) b)
  ultimately show ?thesis by blast
qed

section \<open>Rendering and reachable states\<close>

lemmas state_defs = preventDefault_def setIsDrawing_def setCurrentColor_def setBrushSize_def
  setLastPos_def stopDrawing_def

lemmas effect_defs = commit_def setupEffect_def setupCleanup_def completionEffect_def drawDeps_def

lemma commit_isDrawing: "isDrawing (commit w) = isDrawing w"
  by (simp add: effect_defs Let_def split: option.splits)

lemma commit_currentColor: "currentColor (commit w) = currentColor w"
  by (simp add: effect_defs Let_def split: option.splits)

lemma commit_brushSize: "brushSize (commit w) = brushSize w"
  by (simp add: effect_defs Let_def split: option.splits)

lemma commit_lastPosRef: "lastPosRef (commit w) = lastPosRef w"
  by (simp add: effect_defs Let_def split: option.splits)

lemma commit_drawDeps: "drawDeps (commit w) = drawDeps w"
  by (simp add: drawDeps_def commit_isDrawing commit_currentColor commit_brushSize
        commit_lastPosRef)

lemma commit_completionDeps: "completionDeps (commit w) = Some (isDrawing w)"
  by (simp add: effect_defs Let_def split: option.splits)

lemma commit_renderedDraw: "renderedDraw (commit w) = Some (drawDeps w)"
  by (simp add: effect_defs Let_def split: option.splits)

text \<open>A render with no dependency changed runs no effect, so rendering twice is rendering once.\<close>

lemma commit_settled:
  "renderedDraw w = Some (drawDeps w) \<Longrightarrow> completionDeps w = Some (isDrawing w) \<Longrightarrow> commit w = w"
  by (simp add: commit_def)

lemma commit_idem: "commit (commit w) = commit w"
  by (rule commit_settled)
     (simp_all add: commit_renderedDraw commit_drawDeps commit_completionDeps commit_isDrawing)

lemma posted_commit:
  "posted (commit w) = posted w @
     (if completionDeps w \<noteq> Some (isDrawing w) \<and> isDrawing w
      then [PostMessage Window
              \<lparr>msg_type = ''BLOCK_COMPLETION'', blockId = ''685334c2157dfa0de308d307'',
               completed = True\<rparr> ''*'',
            PostMessage Parent
              \<lparr>msg_type = ''BLOCK_COMPLETION'', blockId = ''685334c2157dfa0de308d307'',
               completed = True\<rparr> ''*'']
      else [])"
  by (simp add: effect_defs Let_def split: option.splits)

lemma handle_posted: "posted (world_of (handle a w)) = posted w"
  by (cases a)
     (simp_all add: startDrawing_def draw_def clearCanvas_def state_defs Let_def
        split: sum.splits option.splits)

lemma handle_completionDeps: "completionDeps (world_of (handle a w)) = completionDeps w"
  by (cases a)
     (simp_all add: startDrawing_def draw_def clearCanvas_def state_defs Let_def
        split: sum.splits option.splits)

lemma handle_renderedDraw: "renderedDraw (world_of (handle a w)) = renderedDraw w"
  by (cases a)
     (simp_all add: startDrawing_def draw_def clearCanvas_def state_defs Let_def
        split: sum.splits option.splits)

lemma handle_currentColor:
  "currentColor (world_of (handle a w)) =
     (case a of ColorClick i \<Rightarrow> if i < length colors then colors ! i else currentColor w
      | _ \<Rightarrow> currentColor w)"
  by (cases a)
     (simp_all add: startDrawing_def draw_def clearCanvas_def state_defs Let_def
        split: sum.splits option.splits)

lemma handle_brushSize:
  "brushSize (world_of (handle a w)) =
     (case a of SizeChange v \<Rightarrow> rangeValue v | _ \<Rightarrow> brushSize w)"
  by (cases a)
     (simp_all add: startDrawing_def draw_def clearCanvas_def state_defs Let_def
        split: sum.splits option.splits)

lemma run_append: "run w (as @ bs) = run (run w as) bs"
  by (induction as arbitrary: w) simp_all

lemma run_committed: "\<exists>v. run (mount p cv) acts = commit v"
proof (induction acts rule: rev_induct)
  case Nil
  show ?case by (auto simp: mount_def)
next
  case (snoc a acts)
  show ?case by (auto simp: run_append step_def)
qed

lemma run_settled: "commit (run (mount p cv) acts) = run (mount p cv) acts"
  using run_committed [of p cv acts] by (auto simp: commit_idem)

lemma length_colors: "length colors = 15"
  by (simp add: colors_def)

lemma distinct_colors: "distinct colors"
  by (simp add: colors_def)

lemma run_tool_state:
  "currentColor w \<in> set colors \<Longrightarrow> 1 \<le> brushSize w \<Longrightarrow> brushSize w \<le> 20 \<Longrightarrow>
   currentColor (run w acts) \<in> set colors
     \<and> 1 \<le> brushSize (run w acts) \<and> brushSize (run w acts) \<le> 20"
proof (induction acts arbitrary: w)
  case Nil
  then show ?case by simp
next
  case (Cons a acts)
  have "currentColor (step a w) \<in> set colors"
    using Cons.prems(1)
    by (simp add: step_def commit_currentColor handle_currentColor split: action.splits)
  moreover have "1 \<le> brushSize (step a w) \<and> brushSize (step a w) \<le> 20"
    using Cons.prems(2,3)
    by (simp add: step_def commit_brushSize handle_brushSize rangeValue_def
          split: action.splits)
  ultimately show ?case using Cons.IH [of "step a w"] by simp
qed

text \<open>
  Evaluating the component on a concrete input: the definitions to unfold, and the
  doubles that the sample inputs produce.
\<close>

lemmas eval_defs = mount_def step_def commit_def setupEffect_def setupCleanup_def
  completionEffect_def drawDeps_def startDrawing_def draw_def stopDrawing_def clearCanvas_def
  getContext_def getPosition_def preventDefault_def setIsDrawing_def setCurrentColor_def
  setBrushSize_def setLastPos_def beginPath_def stroke_def clearRect_def resetContext_def
  set_canvas_width_def set_canvas_height_def toUnsignedLong_def limited_def freshCanvas_def
  Block_width_def Block_height_def Block_title_def jsSub_def jsDiv_def Let_def

lemma fl_sample:
  "fl 2 = Num 2" "fl 10 = Num 10" "fl 20 = Num 20" "fl 30 = Num 30" "fl 40 = Num 40"
  "fl 60 = Num 60" "fl (- 10) = Num (- 10)" "fl (- 20) = Num (- 20)"
  "fl 150 = Num 150" "fl 200 = Num 200" "fl 300 = Num 300" "fl 400 = Num 400"
  "fl 600 = Num 600" "fl 800 = Num 800"
  by code_simp+

text \<open>
  The listeners are attached exactly when the canvas and its context exist, and a
  session is only ever active while they are attached.
\<close>

lemma has2d_moveTo: "has2d (moveTo a b c) = has2d c"
  by (cases a; cases b) simp_all

lemma has2d_lineTo: "has2d (lineTo a b c) = has2d c"
  by (cases a; cases b) simp_all

lemma handle_getContext: "(getContext (world_of (handle a w)) = None) = (getContext w = None)"
  by (cases a)
     (auto simp: startDrawing_def draw_def clearCanvas_def getContext_def state_defs Let_def
        beginPath_def stroke_def clearRect_def has2d_moveTo has2d_lineTo
        split: sum.splits option.splits if_splits)

lemma handle_listening: "listening (world_of (handle a w)) = listening w"
  by (cases a)
     (simp_all add: startDrawing_def draw_def clearCanvas_def state_defs Let_def
        split: sum.splits option.splits)

lemma handle_isDrawing:
  "isDrawing (world_of (handle a w)) \<Longrightarrow> isDrawing w \<or> listening w"
  by (cases a)
     (simp_all add: startDrawing_def draw_def clearCanvas_def state_defs Let_def
        split: sum.splits option.splits if_splits)

lemma commit_getContext: "(getContext (commit v) = None) = (getContext v = None)"
  by (auto simp: effect_defs getContext_def Let_def set_canvas_width_def set_canvas_height_def
        resetContext_def split: option.splits if_splits)

lemma commit_listening:
  "listening (commit v) =
     (if renderedDraw v = Some (drawDeps v) then listening v else getContext v \<noteq> None)"
  by (auto simp: effect_defs getContext_def Let_def split: option.splits if_splits)

lemma run_rendered:
  "renderedDraw (run (mount p cv) acts) = Some (drawDeps (run (mount p cv) acts))"
proof -
  obtain v where "run (mount p cv) acts = commit v"
    using run_committed by blast
  then show ?thesis
    by (simp add: commit_renderedDraw commit_drawDeps)
qed

lemma run_listening:
  "listening (run (mount p cv) acts) = (getContext (run (mount p cv) acts) \<noteq> None)
   \<and> (isDrawing (run (mount p cv) acts) \<longrightarrow> listening (run (mount p cv) acts))"
proof (induction acts rule: rev_induct)
  case Nil
  show ?case
    by (simp add: mount_def commit_listening commit_isDrawing commit_getContext drawDeps_def)
next
  case (snoc a acts)
  let ?w = "run (mount p cv) acts"
  let ?v = "world_of (handle a ?w)"
  have w': "run (mount p cv) (acts @ [a]) = commit ?v"
    by (simp add: run_append step_def)
  have l: "listening ?v = (getContext ?v \<noteq> None)"
    using snoc.IH by (simp add: handle_listening handle_getContext)
  have l': "listening (commit ?v) = (getContext (commit ?v) \<noteq> None)"
    using l by (simp add: commit_listening commit_getContext)
  have d: "isDrawing (commit ?v) \<longrightarrow> listening (commit ?v)"
  proof
    assume "isDrawing (commit ?v)"
    then have "isDrawing ?v"
      by (simp add: commit_isDrawing)
    then have "listening ?w"
      using handle_isDrawing [of a ?w] snoc.IH by blast
    then have "getContext ?v \<noteq> None"
      using snoc.IH by (simp add: handle_getContext)
    then show "listening (commit ?v)"
      using l' by (simp add: commit_getContext)
  qed
  show ?case
    unfolding w' using l' d by blast
qed

text \<open>Without a context no action touches the canvas, the session, the anchor or the messages.\<close>

lemma step_without_context:
  assumes "getContext w = None" and "\<not> listening w" and "\<not> isDrawing w"
  shows "canvasRef (step a w) = canvasRef w \<and> \<not> isDrawing (step a w)
     \<and> posted (step a w) = posted w \<and> lastPos (step a w) = lastPos w
     \<and> lastPosRef (step a w) = lastPosRef w"
proof -
  let ?v = "world_of (handle a w)"
  have v: "canvasRef ?v = canvasRef w \<and> \<not> isDrawing ?v \<and> posted ?v = posted w
      \<and> lastPos ?v = lastPos w \<and> lastPosRef ?v = lastPosRef w"
    using assms
    by (cases a) (simp_all add: clearCanvas_def state_defs)
  have k: "getContext ?v = None"
    using assms(1) by (simp add: handle_getContext)
  have c: "canvasRef (commit ?v) = canvasRef ?v \<and> lastPos (commit ?v) = lastPos ?v"
    using k
    by (auto simp: effect_defs getContext_def Let_def split: option.splits if_splits)
  show ?thesis
    using v c by (simp add: step_def commit_isDrawing commit_lastPosRef posted_commit)
qed

section \<open>Position resolution and the stroke handlers\<close>

lemma getPosition_touch:
  "getPosition (TouchEvent ((tx, ty) # ts)) w = getPosition (MouseEvent tx ty) w"
  by (simp add: getPosition_def Let_def split: option.splits)

lemma draw_idle: "\<not> isDrawing w \<Longrightarrow> draw e w = Done w"
  by (simp add: draw_def)

text \<open>
  With a session active, a context and finite coordinates, \<open>draw\<close> suppresses the
  default, paints one stroke from the anchor to the resolved position in the current
  colour and width with round cap and join, after everything painted before, and
  makes the resolved position the anchor.
\<close>

lemma draw_active:
  assumes "isDrawing w" and "canvasRef w = Some c" and "has2d c"
    and "getPosition e w = Inr (Num px, Num py)" and "lastPos w = (Num ax, Num ay)"
  shows "draw e w =
     Done (w\<lparr>lastPos := (Num px, Num py), lastPosRef := Suc (lastPosRef w),
             prevented := Suc (prevented w),
             canvasRef := Some (c\<lparr>path := [[(ax, ay), (px, py)]],
                strokeStyle := currentColor w, lineWidth := brushSize w,
                lineCap := ''round'', lineJoin := ''round'',
                bitmap := bitmap c @
                  [Stroke [[(ax, ay), (px, py)]] (currentColor w) (brushSize w)
                     ''round'' ''round'']\<rparr>)\<rparr>)"
proof -
  have g: "getPosition e (preventDefault w) = Inr (Num px, Num py)"
    using assms(4) by (simp add: getPosition_def preventDefault_def)
  have k: "getContext (preventDefault w) = Some c"
    using assms(2,3) by (simp add: getContext_def preventDefault_def)
  show ?thesis
    using assms(1,5)
    by (simp add: draw_def Let_def g k beginPath_def stroke_def setLastPos_def)
       (simp add: preventDefault_def)
qed

lemma draw_without_context:
  "getContext w = None \<Longrightarrow> draw e w = Done (if isDrawing w then preventDefault w else w)"
  by (simp add: draw_def Let_def getContext_def preventDefault_def split: option.splits)

section \<open>The claims\<close>

subsection \<open>The completion notification\<close>

text \<open>
  C4. In every state the component can reach, an action posts the completion message
  exactly when it takes the session from idle to drawing: then one message
  \<^verbatim>\<open>{ type: 'BLOCK_COMPLETION', blockId: '685334c2157dfa0de308d307', completed: true }\<close>
  is posted to the window and one to its parent, in this order; any other action
  posts nothing.
\<close>

theorem completion_once_per_transition:
  assumes "w = run (mount p cv) acts"
  shows "posted (step a w) = posted w @
     (if \<not> isDrawing w \<and> isDrawing (step a w)
      then [PostMessage Window
              \<lparr>msg_type = ''BLOCK_COMPLETION'', blockId = ''685334c2157dfa0de308d307'',
               completed = True\<rparr> ''*'',
            PostMessage Parent
              \<lparr>msg_type = ''BLOCK_COMPLETION'', blockId = ''685334c2157dfa0de308d307'',
               completed = True\<rparr> ''*'']
      else [])"
proof -
  obtain v where v: "w = commit v"
    using assms run_committed by blast
  have deps: "completionDeps w = Some (isDrawing w)"
    by (simp add: v commit_completionDeps commit_isDrawing)
  show ?thesis
    by (auto simp add: step_def posted_commit handle_posted handle_completionDeps deps
          commit_isDrawing)
qed

theorem completion_once_per_transition_witness:
  "posted (step (Mousedown 110 60) (run (mount defaultProps (Some sampleCanvas)) [])) =
     [PostMessage Window
        \<lparr>msg_type = ''BLOCK_COMPLETION'', blockId = ''685334c2157dfa0de308d307'',
         completed = True\<rparr> ''*'',
      PostMessage Parent
        \<lparr>msg_type = ''BLOCK_COMPLETION'', blockId = ''685334c2157dfa0de308d307'',
         completed = True\<rparr> ''*'']"
proof -
  have idle: "\<not> isDrawing (run (mount defaultProps (Some sampleCanvas)) [])"
    by (simp add: mount_def commit_isDrawing)
  have none: "posted (run (mount defaultProps (Some sampleCanvas)) []) = []"
    by (simp add: mount_def posted_commit)
  have active:
    "isDrawing (step (Mousedown 110 60) (run (mount defaultProps (Some sampleCanvas)) []))"
    by (simp add: eval_defs fl_sample)
  show ?thesis
    using completion_once_per_transition
      [OF refl, of "Mousedown 110 60" defaultProps "Some sampleCanvas" "[]"]
    by (simp only: idle none active simp_thms if_True append_Nil)
qed

subsection \<open>Clearing\<close>

text \<open>
  C5. With the surface and its context available, the clear operation leaves the
  surface blank whatever it held before and changes nothing else: the current colour
  and the brush width stay as they were. What the surface held before has no
  influence on the state after clearing, so nothing can bring it back.
\<close>

theorem clearCanvas_blank:
  assumes "canvasRef w = Some c" and "has2d c"
  shows "clearCanvas w = w\<lparr>canvasRef := Some (c\<lparr>bitmap := []\<rparr>)\<rparr>
     \<and> currentColor (clearCanvas w) = currentColor w
     \<and> brushSize (clearCanvas w) = brushSize w
     \<and> clearCanvas (w\<lparr>canvasRef := Some (c\<lparr>bitmap := b\<rparr>)\<rparr>) = clearCanvas w"
  using assms by (simp add: clearCanvas_def getContext_def clearRect_def)

theorem clearCanvas_blank_witness:
  "has2d (sampleCanvas\<lparr>bitmap := [Stroke [[(20, 20), (40, 40)]] ''#FF0000'' 5 ''round'' ''round'']\<rparr>)
   \<and> map_option bitmap (canvasRef (clearCanvas
        ((mount defaultProps None)\<lparr>canvasRef := Some (sampleCanvas\<lparr>bitmap :=
           [Stroke [[(20, 20), (40, 40)]] ''#FF0000'' 5 ''round'' ''round'']\<rparr>)\<rparr>))) = Some []"
proof -
  have h: "has2d (sampleCanvas\<lparr>bitmap :=
      [Stroke [[(20, 20), (40, 40)]] ''#FF0000'' 5 ''round'' ''round'']\<rparr>)"
    by (simp add: freshCanvas_def)
  have c: "canvasRef ((mount defaultProps None)\<lparr>canvasRef := Some (sampleCanvas\<lparr>bitmap :=
      [Stroke [[(20, 20), (40, 40)]] ''#FF0000'' 5 ''round'' ''round'']\<rparr>)\<rparr>) =
    Some (sampleCanvas\<lparr>bitmap :=
      [Stroke [[(20, 20), (40, 40)]] ''#FF0000'' 5 ''round'' ''round'']\<rparr>)"
    by simp
  show ?thesis
    using clearCanvas_blank [OF c h] h by simp
qed

subsection \<open>Ending a stroke\<close>

text \<open>
  C6. Ending a stroke only marks the session inactive: \<open>stopDrawing\<close> changes no
  other part of the state, ending twice is ending once, and ending a session that is
  not active changes nothing. The same holds for the three events that end a stroke
  (mouse up, mouse leave, touch end) in every state the component can reach.
\<close>

theorem stopDrawing_idempotent:
  assumes "w = run (mount p cv) acts" and "a = Mouseup \<or> a = Mouseleave \<or> a = Touchend"
  shows "stopDrawing v = v\<lparr>isDrawing := False\<rparr>
     \<and> stopDrawing (stopDrawing v) = stopDrawing v
     \<and> (\<not> isDrawing v \<longrightarrow> stopDrawing v = v)
     \<and> (\<not> isDrawing w \<longrightarrow> step a w = w)
     \<and> step a (step a w) = step a w"
proof -
  have settled: "commit w = w"
    using assms(1) run_settled by simp
  have idle: "step a w = w" if "\<not> isDrawing w"
  proof -
    have "world_of (handle a w) = w"
      using that assms(2) by (auto simp: state_defs)
    then show ?thesis by (simp add: step_def settled)
  qed
  have "step a w = run (mount p cv) (acts @ [a])"
    by (simp add: run_append assms(1))
  then have settled': "commit (step a w) = step a w"
    using run_settled by simp
  have twice: "step a (step a w) = step a w"
  proof (cases "listening w")
    case False
    then have "world_of (handle a w) = w"
      using assms(2) by auto
    then have "step a w = w"
      by (simp add: step_def settled)
    then show ?thesis by simp
  next
    case True
    then have "\<not> isDrawing (step a w)"
      using assms(2) by (auto simp: step_def commit_isDrawing state_defs)
    then have "world_of (handle a (step a w)) = step a w"
      using assms(2) by (auto simp: state_defs)
    then show ?thesis using settled' by (simp add: step_def [of a "step a w"])
  qed
  show ?thesis using idle twice by (simp add: state_defs)
qed

theorem stopDrawing_idempotent_witness:
  "isDrawing (run (mount defaultProps (Some sampleCanvas)) [Mousedown 110 60])
   \<and> step Mouseup (step Mouseup (run (mount defaultProps (Some sampleCanvas)) [Mousedown 110 60])) =
       step Mouseup (run (mount defaultProps (Some sampleCanvas)) [Mousedown 110 60])
   \<and> \<not> isDrawing (run (mount defaultProps (Some sampleCanvas)) [])
   \<and> step Touchend (run (mount defaultProps (Some sampleCanvas)) []) =
       run (mount defaultProps (Some sampleCanvas)) []"
proof -
  have active: "isDrawing (run (mount defaultProps (Some sampleCanvas)) [Mousedown 110 60])"
    by (simp add: eval_defs fl_sample)
  have idle: "\<not> isDrawing (run (mount defaultProps (Some sampleCanvas)) [])"
    by (simp add: mount_def commit_isDrawing)
  have twice: "step Mouseup (step Mouseup (run (mount defaultProps (Some sampleCanvas)) [Mousedown 110 60])) =
       step Mouseup (run (mount defaultProps (Some sampleCanvas)) [Mousedown 110 60])"
    using stopDrawing_idempotent
      [OF refl, of Mouseup _ defaultProps "Some sampleCanvas" "[Mousedown 110 60]"]
    by blast
  have noop: "step Touchend (run (mount defaultProps (Some sampleCanvas)) []) =
       run (mount defaultProps (Some sampleCanvas)) []"
    using stopDrawing_idempotent
      [OF refl, of Touchend _ defaultProps "Some sampleCanvas" "[]"] idle
    by blast
  show ?thesis
    using active idle twice noop by blast
qed

subsection \<open>Construction\<close>

text \<open>
  C7. A component constructed without parameters and mounted on a canvas with a
  context has a surface of 800 by 600 pixels, the title "Simple Whiteboard", the
  current colour #000000 and the brush size 3. Each of the three parameters may be
  absent, its default then being the title "Simple Whiteboard", the width 800 and the
  height 600, and a parameter that is given is used as it is.
\<close>

theorem default_construction:
  assumes "has2d c" and "w = mount \<lparr>title = None, width = None, height = None\<rparr> (Some c)"
  shows "map_option canvas_width (canvasRef w) = Some 800
     \<and> map_option canvas_height (canvasRef w) = Some 600
     \<and> Block_title (props w) = ''Simple Whiteboard''
     \<and> currentColor w = ''#000000''
     \<and> brushSize w = 3
     \<and> Block_title (p\<lparr>title := None\<rparr>) = ''Simple Whiteboard''
     \<and> Block_width (p\<lparr>width := None\<rparr>) = 800
     \<and> Block_height (p\<lparr>height := None\<rparr>) = 600
     \<and> Block_title (p\<lparr>title := Some t\<rparr>) = t
     \<and> Block_width (p\<lparr>width := Some n\<rparr>) = n
     \<and> Block_height (p\<lparr>height := Some m\<rparr>) = m"
  using assms
  by (simp add: mount_def effect_defs Let_def Block_title_def Block_width_def Block_height_def
        set_canvas_width_def set_canvas_height_def resetContext_def toUnsignedLong_def
        limited_def)

theorem default_construction_witness:
  "has2d sampleCanvas
   \<and> map_option canvas_width (canvasRef (mount defaultProps (Some sampleCanvas))) = Some 800
   \<and> map_option canvas_height (canvasRef (mount defaultProps (Some sampleCanvas))) = Some 600
   \<and> Block_title (props (mount defaultProps (Some sampleCanvas))) = ''Simple Whiteboard''
   \<and> currentColor (mount defaultProps (Some sampleCanvas)) = ''#000000''
   \<and> brushSize (mount defaultProps (Some sampleCanvas)) = 3"
proof -
  have h: "has2d sampleCanvas"
    by (simp add: freshCanvas_def)
  show ?thesis
    using default_construction [OF h refl] h by blast
qed

subsection \<open>The tool state\<close>

text \<open>
  C8. In every state the component can reach, the current colour is one of the 15
  distinct palette values and the brush width is an integer from 1 to 20. A click on
  the palette entry of index \<open>i\<close> makes the current colour exactly that entry, a
  change of the slider to \<open>n\<close> with \<open>1 \<le> n \<le> 20\<close> makes the width exactly \<open>n\<close>, and
  no action leads to a width outside 1 to 20 or to a colour outside the palette.
\<close>

theorem tool_state_invariant:
  assumes "w = run (mount p cv) acts"
  shows "currentColor w \<in> set colors \<and> length colors = 15 \<and> distinct colors
     \<and> 1 \<le> brushSize w \<and> brushSize w \<le> 20
     \<and> (\<forall>i<15. currentColor (step (ColorClick i) w) = colors ! i)
     \<and> (\<forall>n. 1 \<le> n \<and> n \<le> 20 \<longrightarrow> brushSize (step (SizeChange n) w) = n)
     \<and> (\<forall>a. 1 \<le> brushSize (step a w) \<and> brushSize (step a w) \<le> 20
            \<and> currentColor (step a w) \<in> set colors)"
proof -
  have c0: "currentColor (mount p cv) \<in> set colors"
    by (simp add: mount_def commit_currentColor colors_def)
  have b0: "brushSize (mount p cv) = 3"
    by (simp add: mount_def commit_brushSize)
  have inv: "currentColor w \<in> set colors \<and> 1 \<le> brushSize w \<and> brushSize w \<le> 20"
    unfolding assms using run_tool_state [OF c0, of acts] b0 by simp
  have next_inv: "1 \<le> brushSize (step a w) \<and> brushSize (step a w) \<le> 20
      \<and> currentColor (step a w) \<in> set colors" for a
    using run_tool_state [of w "[a]"] inv by simp
  have pick: "currentColor (step (ColorClick i) w) = colors ! i" if "i < 15" for i
    using that by (simp add: step_def commit_currentColor length_colors state_defs)
  have size: "brushSize (step (SizeChange n) w) = n" if "1 \<le> n \<and> n \<le> 20" for n
    using that by (simp add: step_def commit_brushSize rangeValue_def state_defs)
  show ?thesis
    using inv next_inv pick size length_colors distinct_colors by blast
qed

theorem tool_state_invariant_witness:
  "currentColor (step (ColorClick 14)
      (run (mount defaultProps (Some sampleCanvas)) [ColorClick 1, SizeChange 50])) = ''#FFFFFF''
   \<and> brushSize (step (SizeChange 7)
      (run (mount defaultProps (Some sampleCanvas)) [ColorClick 1, SizeChange 50])) = 7
   \<and> brushSize (run (mount defaultProps (Some sampleCanvas)) [ColorClick 1, SizeChange 50]) \<le> 20"
proof -
  note inv = tool_state_invariant
    [OF refl, of defaultProps "Some sampleCanvas" "[ColorClick 1, SizeChange 50]"]
  have "(14::nat) < 15" by simp
  with inv have pick: "currentColor (step (ColorClick 14)
      (run (mount defaultProps (Some sampleCanvas)) [ColorClick 1, SizeChange 50])) = colors ! 14"
    by blast
  have "(1::int) \<le> 7 \<and> (7::int) \<le> 20" by simp
  with inv have size: "brushSize (step (SizeChange 7)
      (run (mount defaultProps (Some sampleCanvas)) [ColorClick 1, SizeChange 50])) = 7"
    by blast
  have white: "colors ! 14 = ''#FFFFFF''"
    by (simp add: colors_def)
  show ?thesis
    using inv pick size white by simp
qed

subsection \<open>A surface or context that is not available\<close>

text \<open>
  C3. In every state the component can reach in which the surface or its context is
  not available, the operations that need it are silent no-ops. The events that begin
  a stroke, extend a stroke and clear change nothing and raise nothing, so nothing is
  drawn, posted or suppressed; the move handler and the clear operation themselves
  return the state as it is; no session is active and no listener is attached; and
  when the surface itself is missing, position resolution returns (0, 0) and raises
  nothing.
\<close>

theorem unavailable_surface_noops:
  assumes "w = run (mount p cv) acts" and "getContext w = None"
    and "a = Mousedown cx cy \<or> a = Touchstart ts \<or> a = Mousemove cx cy \<or> a = Touchmove ts
       \<or> a = ClearClick"
  shows "handle a w = Done w \<and> step a w = w
     \<and> draw e w = Done w \<and> clearCanvas w = w
     \<and> \<not> isDrawing w \<and> \<not> listening w
     \<and> (canvasRef w = None \<longrightarrow> getPosition e w = Inr (Num 0, Num 0))"
proof -
  have off: "\<not> listening w" "\<not> isDrawing w"
    using run_listening [of p cv acts] assms(1,2) by auto
  have clear: "clearCanvas w = w"
    using assms(2) by (simp add: clearCanvas_def)
  have h: "handle a w = Done w"
    using assms(3) off(1) clear by auto
  have settled: "commit w = w"
    using assms(1) run_settled by simp
  have s: "step a w = w"
    by (simp add: step_def h settled)
  have d: "draw e w = Done w"
    using off(2) by (simp add: draw_idle)
  have g: "getPosition e w = Inr (Num 0, Num 0)" if "canvasRef w = None"
    using that by (simp add: getPosition_def)
  show ?thesis
    using h s d clear off g by blast
qed

theorem unavailable_surface_noops_witness:
  "getContext (run (mount defaultProps (Some (sampleCanvas\<lparr>has2d := False\<rparr>))) [ColorClick 1]) = None
   \<and> step (Touchstart [(110, 60)])
        (run (mount defaultProps (Some (sampleCanvas\<lparr>has2d := False\<rparr>))) [ColorClick 1]) =
       run (mount defaultProps (Some (sampleCanvas\<lparr>has2d := False\<rparr>))) [ColorClick 1]
   \<and> getContext (run (mount defaultProps None) []) = None
   \<and> canvasRef (run (mount defaultProps None) []) = None
   \<and> step ClearClick (run (mount defaultProps None) []) = run (mount defaultProps None) []
   \<and> getPosition (TouchEvent []) (run (mount defaultProps None) []) = Inr (Num 0, Num 0)"
proof -
  let ?u = "run (mount defaultProps (Some (sampleCanvas\<lparr>has2d := False\<rparr>))) [ColorClick 1]"
  let ?w = "run (mount defaultProps None) []"
  have ku: "getContext ?u = None"
    by (simp add: eval_defs)
  have kw: "getContext ?w = None" and cw: "canvasRef ?w = None"
    by (simp_all add: eval_defs)
  have su: "step (Touchstart [(110, 60)]) ?u = ?u"
    using unavailable_surface_noops
      [OF refl ku, where a = "Touchstart [(110, 60)]" and ts = "[(110, 60)]"]
    by blast
  note noop = unavailable_surface_noops
    [OF refl kw, where a = ClearClick and e = "TouchEvent []"]
  have sw: "step ClearClick ?w = ?w"
    using noop by blast
  have gw: "getPosition (TouchEvent []) ?w = Inr (Num 0, Num 0)"
    using noop cw by blast
  show ?thesis
    using ku su kw cw sw gw by blast
qed

subsection \<open>A surface that is not mounted\<close>

text \<open>
  C9, as the claim states it, fails: without a canvas a pointer-down does not activate
  the session and no completion message is posted. The listeners are attached by the
  set-up effect, which returns before attaching them when the canvas is missing.
\<close>

theorem pointer_down_without_surface_counterexample:
  "canvasRef (mount defaultProps None) = None
   \<and> step (Mousedown 5 5) (mount defaultProps None) = mount defaultProps None
   \<and> \<not> isDrawing (step (Mousedown 5 5) (mount defaultProps None))
   \<and> posted (step (Mousedown 5 5) (mount defaultProps None)) = []"
  by (simp add: eval_defs)

text \<open>
  C9, amended. A component whose canvas is missing stays without a canvas, and
  position resolution then returns (0, 0) and raises nothing. A pointer-down or
  touch-start in that situation changes nothing: the session stays idle, the anchor
  stays the initial (0, 0), and no completion message is ever posted.
\<close>

theorem unmounted_surface_sentinel:
  assumes "w = run (mount p None) acts"
  shows "canvasRef w = None
     \<and> getPosition e w = Inr (Num 0, Num 0)
     \<and> step (Mousedown cx cy) w = w
     \<and> step (Touchstart ts) w = w
     \<and> \<not> isDrawing w
     \<and> lastPos w = (Num 0, Num 0) \<and> lastPosRef w = 0
     \<and> posted w = []"
proof -
  have inv: "canvasRef (run (mount p None) acts) = None
      \<and> \<not> isDrawing (run (mount p None) acts)
      \<and> posted (run (mount p None) acts) = []
      \<and> lastPos (run (mount p None) acts) = (Num 0, Num 0)
      \<and> lastPosRef (run (mount p None) acts) = 0"
  proof (induction acts rule: rev_induct)
    case Nil
    show ?case by (simp add: eval_defs)
  next
    case (snoc a acts)
    let ?u = "run (mount p None) acts"
    have k: "getContext ?u = None"
      using snoc.IH by (simp add: getContext_def)
    have l: "\<not> listening ?u"
      using run_listening [of p None acts] k by simp
    show ?case
      using step_without_context [OF k l, of a] snoc.IH by (simp add: run_append)
  qed
  have c: "canvasRef w = None"
    using inv assms by simp
  have k: "getContext w = None"
    using c by (simp add: getContext_def)
  have l: "\<not> listening w"
    using run_listening [of p None acts] k assms by simp
  have settled: "commit w = w"
    using assms run_settled by simp
  have down: "step (Mousedown cx cy) w = w" and touch: "step (Touchstart ts) w = w"
    using l settled by (simp_all add: step_def)
  have g: "getPosition e w = Inr (Num 0, Num 0)"
    using c by (simp add: getPosition_def)
  show ?thesis
    using inv assms c g down touch by simp
qed

theorem unmounted_surface_sentinel_witness:
  "getPosition (MouseEvent 5 5) (run (mount defaultProps None) [Mousedown 5 5, ColorClick 2]) =
     Inr (Num 0, Num 0)
   \<and> step (Mousedown 5 5) (run (mount defaultProps None) [Mousedown 5 5, ColorClick 2]) =
       run (mount defaultProps None) [Mousedown 5 5, ColorClick 2]
   \<and> \<not> isDrawing (run (mount defaultProps None) [Mousedown 5 5, ColorClick 2])
   \<and> posted (run (mount defaultProps None) [Mousedown 5 5, ColorClick 2]) = []"
  using unmounted_surface_sentinel
    [OF refl, where e = "MouseEvent 5 5" and p = defaultProps
       and acts = "[Mousedown 5 5, ColorClick 2]" and cx = 5 and cy = 5]
  by blast

subsection \<open>Position resolution\<close>

lemma getPosition_mouse:
  assumes "canvasRef w = Some c" and "rect_width (rect c) \<noteq> 0" and "rect_height (rect c) \<noteq> 0"
  shows "getPosition (MouseEvent cx cy) w =
     Inr (jsMul (fl (cx - rect_left (rect c))) (fl (of_nat (canvas_width c) / rect_width (rect c))),
          jsMul (fl (cy - rect_top (rect c))) (fl (of_nat (canvas_height c) / rect_height (rect c))))"
  using assms by (simp add: getPosition_def jsSub_def jsDiv_def Let_def)

text \<open>
  C2, as the claim states it, fails: the quotient and the product are rounded to
  doubles. On the default 800 by 600 surface rendered in a box of 194 by 146 CSS
  pixels with its corner at (100, 50), the exact bottom-right corner (294, 196)
  resolves to (799.9999999999999, 600.0000000000001), one unit in the last place
  away from (800, 600).
\<close>

theorem bottom_right_rounding_counterexample:
  "getPosition (MouseEvent (100 + 194) (50 + 146))
     (mount defaultProps (Some (freshCanvas
        \<lparr>rect_left = 100, rect_top = 50, rect_width = 194, rect_height = 146\<rparr>))) =
     Inr (Num (800 - 1 / 2 ^ 43), Num (600 + 1 / 2 ^ 43))
   \<and> getPosition (MouseEvent (100 + 194) (50 + 146))
     (mount defaultProps (Some (freshCanvas
        \<lparr>rect_left = 100, rect_top = 50, rect_width = 194, rect_height = 146\<rparr>))) \<noteq>
     Inr (Num 800, Num 600)"
proof -
  have g: "getPosition (MouseEvent a b)
     (mount defaultProps (Some (freshCanvas
        \<lparr>rect_left = 100, rect_top = 50, rect_width = 194, rect_height = 146\<rparr>))) =
     Inr (jsMul (jsSub a 100) (jsDiv 800 194), jsMul (jsSub b 50) (jsDiv 600 146))" for a b
    by (simp add: mount_def commit_def setupEffect_def setupCleanup_def completionEffect_def
          drawDeps_def getPosition_def set_canvas_width_def set_canvas_height_def
          toUnsignedLong_def limited_def resetContext_def freshCanvas_def Block_width_def
          Block_height_def Let_def)
  have x: "jsMul (jsSub (100 + 194) 100) (jsDiv 800 194) = Num (800 - 1 / 2 ^ 43)"
    by code_simp
  have y: "jsMul (jsSub (50 + 146) 50) (jsDiv 600 146) = Num (600 + 1 / 2 ^ 43)"
    by code_simp
  have ne: "Num (800 - 1 / 2 ^ 43) \<noteq> Num 800"
    by simp
  show ?thesis
    unfolding g x y using ne by simp
qed

text \<open>
  C2, amended. For a surface whose two scaling factors, the buffer size divided by
  the rendered size in double arithmetic, are finite, position resolution subtracts
  the origin of the bounding box from the client coordinates and multiplies each axis
  by its factor, every operation rounded to the nearest double. A touch event is
  resolved as a mouse event at its first touch. The top-left corner of the rendered
  box resolves to exactly (0, 0). The bottom-right corner resolves to (width, height)
  up to the rounding of the quotient and of the product: exactly when no operation
  rounds (the rendered size and the buffer size are doubles and the factor times the
  rendered size is the buffer size), and otherwise, for a buffer of at most \<open>2 ^ 32\<close>
  pixels, a rendered size that is a double and factors of at least \<open>pow2 (- 1022)\<close>,
  within the fraction \<open>1 / 2 ^ 51\<close> of the width and of the height.
\<close>

theorem getPosition_scales:
  assumes "canvasRef w = Some c" and "rect_width (rect c) \<noteq> 0" and "rect_height (rect c) \<noteq> 0"
    and "fl (of_nat (canvas_width c) / rect_width (rect c)) = Num sx"
    and "fl (of_nat (canvas_height c) / rect_height (rect c)) = Num sy"
  shows "getPosition (MouseEvent cx cy) w =
       Inr (jsMul (fl (cx - rect_left (rect c))) (Num sx),
            jsMul (fl (cy - rect_top (rect c))) (Num sy))
     \<and> getPosition (TouchEvent ((tx, ty) # ts)) w = getPosition (MouseEvent tx ty) w
     \<and> getPosition (MouseEvent (rect_left (rect c)) (rect_top (rect c))) w = Inr (Num 0, Num 0)
     \<and> (fl (rect_width (rect c)) = Num (rect_width (rect c))
          \<and> fl (rect_height (rect c)) = Num (rect_height (rect c))
          \<and> fl (of_nat (canvas_width c)) = Num (of_nat (canvas_width c))
          \<and> fl (of_nat (canvas_height c)) = Num (of_nat (canvas_height c))
          \<and> rect_width (rect c) * sx = of_nat (canvas_width c)
          \<and> rect_height (rect c) * sy = of_nat (canvas_height c) \<longrightarrow>
        getPosition (MouseEvent (rect_left (rect c) + rect_width (rect c))
                       (rect_top (rect c) + rect_height (rect c))) w =
          Inr (Num (of_nat (canvas_width c)), Num (of_nat (canvas_height c))))
     \<and> (0 < canvas_width c \<and> canvas_width c \<le> 2 ^ 32
          \<and> 0 < canvas_height c \<and> canvas_height c \<le> 2 ^ 32
          \<and> 0 < rect_width (rect c) \<and> 0 < rect_height (rect c)
          \<and> fl (rect_width (rect c)) = Num (rect_width (rect c))
          \<and> fl (rect_height (rect c)) = Num (rect_height (rect c))
          \<and> pow2 (- 1022) \<le> of_nat (canvas_width c) / rect_width (rect c)
          \<and> pow2 (- 1022) \<le> of_nat (canvas_height c) / rect_height (rect c) \<longrightarrow>
        (\<exists>bx bh.
           getPosition (MouseEvent (rect_left (rect c) + rect_width (rect c))
                          (rect_top (rect c) + rect_height (rect c))) w =
             Inr (Num bx, Num bh)
           \<and> \<bar>bx - of_nat (canvas_width c)\<bar> \<le> of_nat (canvas_width c) / 2 ^ 51
           \<and> \<bar>bh - of_nat (canvas_height c)\<bar> \<le> of_nat (canvas_height c) / 2 ^ 51))"
proof -
  note g = getPosition_mouse [OF assms(1-3)]
  have zero: "fl 0 = Num 0"
    by (simp add: fl_def)
  have formula: "getPosition (MouseEvent cx cy) w =
       Inr (jsMul (fl (cx - rect_left (rect c))) (Num sx),
            jsMul (fl (cy - rect_top (rect c))) (Num sy))"
    by (simp add: g assms(4,5))
  have corner: "getPosition (MouseEvent (rect_left (rect c)) (rect_top (rect c))) w =
      Inr (Num 0, Num 0)"
    by (simp add: g assms(4,5) zero)
  have far: "getPosition (MouseEvent (rect_left (rect c) + rect_width (rect c))
                       (rect_top (rect c) + rect_height (rect c))) w =
       Inr (jsMul (fl (rect_width (rect c))) (Num sx), jsMul (fl (rect_height (rect c))) (Num sy))"
    by (simp add: g assms(4,5))
  have exact: "getPosition (MouseEvent (rect_left (rect c) + rect_width (rect c))
                       (rect_top (rect c) + rect_height (rect c))) w =
          Inr (Num (of_nat (canvas_width c)), Num (of_nat (canvas_height c)))"
    if "fl (rect_width (rect c)) = Num (rect_width (rect c))
          \<and> fl (rect_height (rect c)) = Num (rect_height (rect c))
          \<and> fl (of_nat (canvas_width c)) = Num (of_nat (canvas_width c))
          \<and> fl (of_nat (canvas_height c)) = Num (of_nat (canvas_height c))
          \<and> rect_width (rect c) * sx = of_nat (canvas_width c)
          \<and> rect_height (rect c) * sy = of_nat (canvas_height c)"
    using that by (simp add: far)
  have near: "\<exists>bx bh.
           getPosition (MouseEvent (rect_left (rect c) + rect_width (rect c))
                          (rect_top (rect c) + rect_height (rect c))) w =
             Inr (Num bx, Num bh)
           \<and> \<bar>bx - of_nat (canvas_width c)\<bar> \<le> of_nat (canvas_width c) / 2 ^ 51
           \<and> \<bar>bh - of_nat (canvas_height c)\<bar> \<le> of_nat (canvas_height c) / 2 ^ 51"
    if h: "0 < canvas_width c \<and> canvas_width c \<le> 2 ^ 32
          \<and> 0 < canvas_height c \<and> canvas_height c \<le> 2 ^ 32
          \<and> 0 < rect_width (rect c) \<and> 0 < rect_height (rect c)
          \<and> fl (rect_width (rect c)) = Num (rect_width (rect c))
          \<and> fl (rect_height (rect c)) = Num (rect_height (rect c))
          \<and> pow2 (- 1022) \<le> of_nat (canvas_width c) / rect_width (rect c)
          \<and> pow2 (- 1022) \<le> of_nat (canvas_height c) / rect_height (rect c)"
  proof -
    have wl: "(1::rat) \<le> of_nat (canvas_width c)" and hl: "(1::rat) \<le> of_nat (canvas_height c)"
      using h by simp_all
    have wu: "(of_nat (canvas_width c) :: rat) \<le> 2 ^ 32"
    proof -
      have "(of_nat (canvas_width c) :: rat) \<le> of_nat (2 ^ 32)"
        using h by (simp only: of_nat_le_iff)
      then show ?thesis by simp
    qed
    have hu: "(of_nat (canvas_height c) :: rat) \<le> 2 ^ 32"
    proof -
      have "(of_nat (canvas_height c) :: rat) \<le> of_nat (2 ^ 32)"
        using h by (simp only: of_nat_le_iff)
      then show ?thesis by simp
    qed
    obtain bx where bx: "jsMul (fl (rect_width (rect c))) (Num sx) = Num bx"
        "\<bar>bx - of_nat (canvas_width c)\<bar> \<le> of_nat (canvas_width c) / 2 ^ 51"
      using corner_axis [OF wl wu _ _ _ assms(4)] h by blast
    obtain bh where bh: "jsMul (fl (rect_height (rect c))) (Num sy) = Num bh"
        "\<bar>bh - of_nat (canvas_height c)\<bar> \<le> of_nat (canvas_height c) / 2 ^ 51"
      using corner_axis [OF hl hu _ _ _ assms(5)] h by blast
    show ?thesis
      using far bx bh by simp
  qed
  show ?thesis
    using formula corner exact near getPosition_touch by blast
qed

theorem getPosition_scales_witness:
  "getPosition (MouseEvent 300 200) (mount defaultProps (Some sampleCanvas)) =
     Inr (Num 400, Num 300)
   \<and> getPosition (TouchEvent [(300, 200), (0, 0)]) (mount defaultProps (Some sampleCanvas)) =
       getPosition (MouseEvent 300 200) (mount defaultProps (Some sampleCanvas))
   \<and> getPosition (MouseEvent 100 50) (mount defaultProps (Some sampleCanvas)) =
       Inr (Num 0, Num 0)
   \<and> getPosition (MouseEvent 500 350) (mount defaultProps (Some sampleCanvas)) =
       Inr (Num 800, Num 600)
   \<and> (\<exists>bx bh. getPosition (MouseEvent 500 350) (mount defaultProps (Some sampleCanvas)) =
         Inr (Num bx, Num bh)
       \<and> \<bar>bx - 800\<bar> \<le> 800 / 2 ^ 51 \<and> \<bar>bh - 600\<bar> \<le> 600 / 2 ^ 51)"
proof -
  let ?c = "sampleCanvas\<lparr>canvas_width := 800, canvas_height := 600,
              lineCap := ''round'', lineJoin := ''round''\<rparr>"
  have c: "canvasRef (mount defaultProps (Some sampleCanvas)) = Some ?c"
    by (simp add: eval_defs)
  have nz: "rect_width (rect ?c) \<noteq> 0" "rect_height (rect ?c) \<noteq> 0"
    by (simp_all add: freshCanvas_def)
  have sx: "fl (of_nat (canvas_width ?c) / rect_width (rect ?c)) = Num 2"
    and sy: "fl (of_nat (canvas_height ?c) / rect_height (rect ?c)) = Num 2"
    by (simp_all add: freshCanvas_def fl_sample)
  have exact: "fl (rect_width (rect ?c)) = Num (rect_width (rect ?c))
          \<and> fl (rect_height (rect ?c)) = Num (rect_height (rect ?c))
          \<and> fl (of_nat (canvas_width ?c)) = Num (of_nat (canvas_width ?c))
          \<and> fl (of_nat (canvas_height ?c)) = Num (of_nat (canvas_height ?c))
          \<and> rect_width (rect ?c) * 2 = of_nat (canvas_width ?c)
          \<and> rect_height (rect ?c) * 2 = of_nat (canvas_height ?c)"
    by (simp add: freshCanvas_def fl_sample)
  have normal: "0 < canvas_width ?c \<and> canvas_width ?c \<le> 2 ^ 32
          \<and> 0 < canvas_height ?c \<and> canvas_height ?c \<le> 2 ^ 32
          \<and> 0 < rect_width (rect ?c) \<and> 0 < rect_height (rect ?c)
          \<and> fl (rect_width (rect ?c)) = Num (rect_width (rect ?c))
          \<and> fl (rect_height (rect ?c)) = Num (rect_height (rect ?c))
          \<and> pow2 (- 1022) \<le> of_nat (canvas_width ?c) / rect_width (rect ?c)
          \<and> pow2 (- 1022) \<le> of_nat (canvas_height ?c) / rect_height (rect ?c)"
    by (simp add: freshCanvas_def fl_sample pow2_def)
  note t = getPosition_scales [OF c nz sx sy, of 300 200 300 200 "[(0, 0)]"]
  from t have formula: "getPosition (MouseEvent 300 200) (mount defaultProps (Some sampleCanvas)) =
       Inr (jsMul (fl (300 - rect_left (rect ?c))) (Num 2),
            jsMul (fl (200 - rect_top (rect ?c))) (Num 2))"
    by blast
  have a: "getPosition (MouseEvent 300 200) (mount defaultProps (Some sampleCanvas)) =
     Inr (Num 400, Num 300)"
    unfolding formula by (simp add: freshCanvas_def fl_sample)
  from t have b: "getPosition (TouchEvent [(300, 200), (0, 0)])
        (mount defaultProps (Some sampleCanvas)) =
       getPosition (MouseEvent 300 200) (mount defaultProps (Some sampleCanvas))"
    by blast
  from t have "getPosition (MouseEvent (rect_left (rect ?c)) (rect_top (rect ?c)))
      (mount defaultProps (Some sampleCanvas)) = Inr (Num 0, Num 0)"
    by blast
  then have d: "getPosition (MouseEvent 100 50) (mount defaultProps (Some sampleCanvas)) =
       Inr (Num 0, Num 0)"
    by (simp add: freshCanvas_def)
  from t exact have "getPosition (MouseEvent (rect_left (rect ?c) + rect_width (rect ?c))
                       (rect_top (rect ?c) + rect_height (rect ?c)))
        (mount defaultProps (Some sampleCanvas)) =
          Inr (Num (of_nat (canvas_width ?c)), Num (of_nat (canvas_height ?c)))"
    by blast
  then have e: "getPosition (MouseEvent 500 350) (mount defaultProps (Some sampleCanvas)) =
       Inr (Num 800, Num 600)"
    by (simp add: freshCanvas_def)
  from t normal have "\<exists>bx bh.
           getPosition (MouseEvent (rect_left (rect ?c) + rect_width (rect ?c))
                          (rect_top (rect ?c) + rect_height (rect ?c)))
              (mount defaultProps (Some sampleCanvas)) = Inr (Num bx, Num bh)
           \<and> \<bar>bx - of_nat (canvas_width ?c)\<bar> \<le> of_nat (canvas_width ?c) / 2 ^ 51
           \<and> \<bar>bh - of_nat (canvas_height ?c)\<bar> \<le> of_nat (canvas_height ?c) / 2 ^ 51"
    by blast
  then have f: "\<exists>bx bh. getPosition (MouseEvent 500 350) (mount defaultProps (Some sampleCanvas)) =
         Inr (Num bx, Num bh)
       \<and> \<bar>bx - 800\<bar> \<le> 800 / 2 ^ 51 \<and> \<bar>bh - 600\<bar> \<le> 600 / 2 ^ 51"
    by (simp add: freshCanvas_def)
  show ?thesis
    using a b d e f by blast
qed

text \<open>
  C10, as the claim states it, fails next to the right and bottom edges, because the
  product is rounded. On the default 800 by 600 surface rendered in a box of 369 by
  300 CSS pixels with its corner at (100, 50), the event at client x = 469 + 1 / 2 ^ 44
  (the double that follows 469, right of the box, which ends at 469) and client
  y = 100 resolves to (800, 100), which lies inside the surface.
\<close>

theorem outside_event_resolves_inside_counterexample:
  "(100::rat) + 369 < 469 + 1 / 2 ^ 44
   \<and> fl (469 + 1 / 2 ^ 44) = Num (469 + 1 / 2 ^ 44)
   \<and> getPosition (MouseEvent (469 + 1 / 2 ^ 44) 100)
       (mount defaultProps (Some (freshCanvas
          \<lparr>rect_left = 100, rect_top = 50, rect_width = 369, rect_height = 300\<rparr>))) =
       Inr (Num 800, Num 100)
   \<and> map_option canvas_width (canvasRef (mount defaultProps (Some (freshCanvas
          \<lparr>rect_left = 100, rect_top = 50, rect_width = 369, rect_height = 300\<rparr>)))) = Some 800
   \<and> map_option canvas_height (canvasRef (mount defaultProps (Some (freshCanvas
          \<lparr>rect_left = 100, rect_top = 50, rect_width = 369, rect_height = 300\<rparr>)))) = Some 600"
proof -
  have g: "getPosition (MouseEvent a b)
     (mount defaultProps (Some (freshCanvas
        \<lparr>rect_left = 100, rect_top = 50, rect_width = 369, rect_height = 300\<rparr>))) =
     Inr (jsMul (jsSub a 100) (jsDiv 800 369), jsMul (jsSub b 50) (jsDiv 600 300))" for a b
    by (simp add: mount_def commit_def setupEffect_def setupCleanup_def completionEffect_def
          drawDeps_def getPosition_def set_canvas_width_def set_canvas_height_def
          toUnsignedLong_def limited_def resetContext_def freshCanvas_def Block_width_def
          Block_height_def Let_def)
  have x: "jsMul (jsSub (469 + 1 / 2 ^ 44) 100) (jsDiv 800 369) = Num 800"
    by code_simp
  have y: "jsMul (jsSub 100 50) (jsDiv 600 300) = Num 100"
    by code_simp
  have d: "fl (469 + 1 / 2 ^ 44) = Num (469 + 1 / 2 ^ 44)"
    by code_simp
  have out: "(100::rat) + 369 < 469 + 1 / 2 ^ 44"
    by simp
  have sizes: "map_option canvas_width (canvasRef (mount defaultProps (Some (freshCanvas
          \<lparr>rect_left = 100, rect_top = 50, rect_width = 369, rect_height = 300\<rparr>)))) = Some 800"
    "map_option canvas_height (canvasRef (mount defaultProps (Some (freshCanvas
          \<lparr>rect_left = 100, rect_top = 50, rect_width = 369, rect_height = 300\<rparr>)))) = Some 600"
    by (simp_all add: eval_defs)
  have p: "getPosition (MouseEvent (469 + 1 / 2 ^ 44) 100)
       (mount defaultProps (Some (freshCanvas
          \<lparr>rect_left = 100, rect_top = 50, rect_width = 369, rect_height = 300\<rparr>))) =
       Inr (Num 800, Num 100)"
    unfolding g x y by (rule refl)
  show ?thesis
    using out d p sizes by blast
qed

text \<open>
  C10, amended. Positions are not clamped. Take a surface whose buffer and rendered
  box have positive width and height, with scaling factors and client offsets of
  ordinary magnitude (the factors between \<open>pow2 (- 500)\<close> and \<open>pow2 500\<close>, the offsets
  from the origin of the box at most \<open>pow2 500\<close>). An event left of or above the box
  (by at least \<open>pow2 (- 500)\<close>) resolves to a negative coordinate, and an event right
  of or below the box by more than the fraction \<open>1 / 2 ^ 50\<close> of its size resolves to
  a coordinate beyond the width or the height; in each case the position is finite and
  lies outside the rectangle from (0, 0) to (width, height). With a session active, a
  context and a finite anchor, the move handler, and the move event that calls it,
  paints the stroke from the anchor to that position and makes it the anchor. An
  event closer than that to the right or bottom edge can resolve to exactly the width
  or the height.
\<close>

theorem getPosition_not_clamped:
  assumes "canvasRef w = Some c"
    and "0 < rect_width (rect c)" and "0 < rect_height (rect c)"
    and "0 < canvas_width c" and "0 < canvas_height c"
    and "pow2 (- 500) \<le> of_nat (canvas_width c) / rect_width (rect c)"
    and "of_nat (canvas_width c) / rect_width (rect c) \<le> pow2 500"
    and "pow2 (- 500) \<le> of_nat (canvas_height c) / rect_height (rect c)"
    and "of_nat (canvas_height c) / rect_height (rect c) \<le> pow2 500"
    and "\<bar>cx - rect_left (rect c)\<bar> \<le> pow2 500" and "\<bar>cy - rect_top (rect c)\<bar> \<le> pow2 500"
    and "(e = MouseEvent cx cy \<and> a = Mousemove cx cy)
       \<or> (e = TouchEvent ((cx, cy) # ts) \<and> a = Touchmove ((cx, cy) # ts))"
    and "cx \<le> rect_left (rect c) - pow2 (- 500)
       \<or> rect_left (rect c) + rect_width (rect c) * (1 + 1 / 2 ^ 50) \<le> cx
       \<or> cy \<le> rect_top (rect c) - pow2 (- 500)
       \<or> rect_top (rect c) + rect_height (rect c) * (1 + 1 / 2 ^ 50) \<le> cy"
  shows "\<exists>px py. getPosition e w = Inr (Num px, Num py)
     \<and> (px < 0 \<or> of_nat (canvas_width c) < px \<or> py < 0 \<or> of_nat (canvas_height c) < py)
     \<and> (cx \<le> rect_left (rect c) - pow2 (- 500) \<longrightarrow> px < 0)
     \<and> (rect_left (rect c) + rect_width (rect c) * (1 + 1 / 2 ^ 50) \<le> cx \<longrightarrow>
          of_nat (canvas_width c) < px)
     \<and> (cy \<le> rect_top (rect c) - pow2 (- 500) \<longrightarrow> py < 0)
     \<and> (rect_top (rect c) + rect_height (rect c) * (1 + 1 / 2 ^ 50) \<le> cy \<longrightarrow>
          of_nat (canvas_height c) < py)
     \<and> (isDrawing w \<and> has2d c \<and> lastPos w = (Num ax, Num ay) \<longrightarrow>
          draw e w =
            Done (w\<lparr>lastPos := (Num px, Num py), lastPosRef := Suc (lastPosRef w),
                    prevented := Suc (prevented w),
                    canvasRef := Some (c\<lparr>path := [[(ax, ay), (px, py)]],
                       strokeStyle := currentColor w, lineWidth := brushSize w,
                       lineCap := ''round'', lineJoin := ''round'',
                       bitmap := bitmap c @
                         [Stroke [[(ax, ay), (px, py)]] (currentColor w) (brushSize w)
                            ''round'' ''round'']\<rparr>)\<rparr>)
          \<and> (listening w \<longrightarrow> handle a w = draw e w))"
proof -
  define sx where "sx = of_nat (canvas_width c) / rect_width (rect c)"
  define sy where "sy = of_nat (canvas_height c) / rect_height (rect c)"
  have nz: "rect_width (rect c) \<noteq> 0" "rect_height (rect c) \<noteq> 0"
    using assms(2,3) by simp_all
  have wx: "rect_width (rect c) * sx = of_nat (canvas_width c)"
    using assms(2) by (simp add: sx_def)
  have hy: "rect_height (rect c) * sy = of_nat (canvas_height c)"
    using assms(3) by (simp add: sy_def)
  obtain px where px: "jsMul (fl (cx - rect_left (rect c))) (fl sx) = Num px"
      "cx - rect_left (rect c) \<le> - pow2 (- 500) \<longrightarrow> px < 0"
      "\<forall>t. pow2 (- 500) \<le> t \<and> t * (1 + 1 / 2 ^ 50) \<le> cx - rect_left (rect c) \<longrightarrow> t * sx < px"
    using scaled_axis [OF assms(6,7,10)] unfolding sx_def by blast
  obtain py where py: "jsMul (fl (cy - rect_top (rect c))) (fl sy) = Num py"
      "cy - rect_top (rect c) \<le> - pow2 (- 500) \<longrightarrow> py < 0"
      "\<forall>t. pow2 (- 500) \<le> t \<and> t * (1 + 1 / 2 ^ 50) \<le> cy - rect_top (rect c) \<longrightarrow> t * sy < py"
    using scaled_axis [OF assms(8,9,11)] unfolding sy_def by blast
  have mouse: "getPosition (MouseEvent cx cy) w = Inr (Num px, Num py)"
    unfolding getPosition_mouse [OF assms(1) nz] using px(1) py(1)
    by (simp only: sx_def sy_def)
  have pos: "getPosition e w = Inr (Num px, Num py)"
    using assms(12) mouse by (auto simp: getPosition_touch)
  have p500: "0 < pow2 500" "pow2 (- 500) * pow2 500 = 1"
    using pow2_pos [of 500] pow2_add [of "- 500" 500] by (simp_all add: pow2_def)
  have wide: "pow2 (- 500) \<le> rect_width (rect c)"
  proof -
    have "1 \<le> rect_width (rect c) * sx"
      using assms(4) by (simp add: wx)
    also have "\<dots> \<le> rect_width (rect c) * pow2 500"
      using assms(2,7) unfolding sx_def by (intro mult_left_mono) auto
    finally have "pow2 (- 500) * pow2 500 \<le> rect_width (rect c) * pow2 500"
      by (simp add: p500(2))
    then show ?thesis
      using p500(1) by (simp only: mult_le_cancel_right)
  qed
  have high: "pow2 (- 500) \<le> rect_height (rect c)"
  proof -
    have "1 \<le> rect_height (rect c) * sy"
      using assms(5) by (simp add: hy)
    also have "\<dots> \<le> rect_height (rect c) * pow2 500"
      using assms(3,9) unfolding sy_def by (intro mult_left_mono) auto
    finally have "pow2 (- 500) * pow2 500 \<le> rect_height (rect c) * pow2 500"
      by (simp add: p500(2))
    then show ?thesis
      using p500(1) by (simp only: mult_le_cancel_right)
  qed
  have left: "px < 0" if "cx \<le> rect_left (rect c) - pow2 (- 500)"
    using that px(2) by simp
  have above: "py < 0" if "cy \<le> rect_top (rect c) - pow2 (- 500)"
    using that py(2) by simp
  have right: "of_nat (canvas_width c) < px"
    if "rect_left (rect c) + rect_width (rect c) * (1 + 1 / 2 ^ 50) \<le> cx"
  proof -
    have "rect_width (rect c) * (1 + 1 / 2 ^ 50) \<le> cx - rect_left (rect c)"
      using that by linarith
    then have "rect_width (rect c) * sx < px"
      using px(3) wide by blast
    then show ?thesis by (simp only: wx)
  qed
  have below: "of_nat (canvas_height c) < py"
    if "rect_top (rect c) + rect_height (rect c) * (1 + 1 / 2 ^ 50) \<le> cy"
  proof -
    have "rect_height (rect c) * (1 + 1 / 2 ^ 50) \<le> cy - rect_top (rect c)"
      using that by linarith
    then have "rect_height (rect c) * sy < py"
      using py(3) high by blast
    then show ?thesis by (simp only: hy)
  qed
  have out: "px < 0 \<or> of_nat (canvas_width c) < px \<or> py < 0 \<or> of_nat (canvas_height c) < py"
    using assms(13) left right above below by blast
  have drawn: "draw e w =
            Done (w\<lparr>lastPos := (Num px, Num py), lastPosRef := Suc (lastPosRef w),
                    prevented := Suc (prevented w),
                    canvasRef := Some (c\<lparr>path := [[(ax, ay), (px, py)]],
                       strokeStyle := currentColor w, lineWidth := brushSize w,
                       lineCap := ''round'', lineJoin := ''round'',
                       bitmap := bitmap c @
                         [Stroke [[(ax, ay), (px, py)]] (currentColor w) (brushSize w)
                            ''round'' ''round'']\<rparr>)\<rparr>)"
    if "isDrawing w \<and> has2d c \<and> lastPos w = (Num ax, Num ay)"
    using that draw_active [OF _ assms(1) _ pos] by blast
  have event: "handle a w = draw e w" if "listening w"
    using that assms(12) by auto
  show ?thesis
    using pos out left right above below drawn event by blast
qed

theorem getPosition_not_clamped_witness:
  "getPosition (MouseEvent 90 70)
      (step (Mousedown 110 60) (mount defaultProps (Some sampleCanvas))) =
     Inr (Num (- 20), Num 40)
   \<and> lastPos (world_of (handle (Mousemove 90 70)
        (step (Mousedown 110 60) (mount defaultProps (Some sampleCanvas))))) =
       (Num (- 20), Num 40)
   \<and> map_option bitmap (canvasRef (world_of (handle (Mousemove 90 70)
        (step (Mousedown 110 60) (mount defaultProps (Some sampleCanvas)))))) =
       Some [Stroke [[(20, 20), (- 20, 40)]] ''#000000'' 3 ''round'' ''round'']"
proof -
  let ?w = "step (Mousedown 110 60) (mount defaultProps (Some sampleCanvas))"
  let ?c = "sampleCanvas\<lparr>canvas_width := 800, canvas_height := 600,
              lineCap := ''round'', lineJoin := ''round''\<rparr>"
  have c: "canvasRef ?w = Some ?c"
    by (simp add: eval_defs fl_sample)
  have sizes: "0 < rect_width (rect ?c)" "0 < rect_height (rect ?c)"
      "0 < canvas_width ?c" "0 < canvas_height ?c"
    by (simp_all add: freshCanvas_def)
  have ordinary:
    "pow2 (- 500) \<le> of_nat (canvas_width ?c) / rect_width (rect ?c)"
    "of_nat (canvas_width ?c) / rect_width (rect ?c) \<le> pow2 500"
    "pow2 (- 500) \<le> of_nat (canvas_height ?c) / rect_height (rect ?c)"
    "of_nat (canvas_height ?c) / rect_height (rect ?c) \<le> pow2 500"
    "\<bar>90 - rect_left (rect ?c)\<bar> \<le> pow2 500" "\<bar>70 - rect_top (rect ?c)\<bar> \<le> pow2 500"
    by (simp_all add: freshCanvas_def pow2_def)
  have ev: "(MouseEvent 90 70 = MouseEvent 90 70 \<and> Mousemove 90 70 = Mousemove 90 70)
      \<or> (MouseEvent 90 70 = TouchEvent [(90, 70)] \<and> Mousemove 90 70 = Touchmove [(90, 70)])"
    by simp
  have outside: "(90::rat) \<le> rect_left (rect ?c) - pow2 (- 500)
       \<or> rect_left (rect ?c) + rect_width (rect ?c) * (1 + 1 / 2 ^ 50) \<le> 90
       \<or> (70::rat) \<le> rect_top (rect ?c) - pow2 (- 500)
       \<or> rect_top (rect ?c) + rect_height (rect ?c) * (1 + 1 / 2 ^ 50) \<le> 70"
    by (simp add: freshCanvas_def pow2_def)
  have active: "isDrawing ?w \<and> has2d ?c \<and> lastPos ?w = (Num 20, Num 20)"
    by (simp add: eval_defs fl_sample)
  have attached: "listening ?w"
    by (simp add: eval_defs fl_sample)
  have g: "getPosition (MouseEvent 90 70) ?w = Inr (Num (- 20), Num 40)"
    by (simp add: eval_defs fl_sample)
  obtain px py where r: "getPosition (MouseEvent 90 70) ?w = Inr (Num px, Num py)"
    and d: "draw (MouseEvent 90 70) ?w =
            Done (?w\<lparr>lastPos := (Num px, Num py), lastPosRef := Suc (lastPosRef ?w),
                    prevented := Suc (prevented ?w),
                    canvasRef := Some (?c\<lparr>path := [[(20, 20), (px, py)]],
                       strokeStyle := currentColor ?w, lineWidth := brushSize ?w,
                       lineCap := ''round'', lineJoin := ''round'',
                       bitmap := bitmap ?c @
                         [Stroke [[(20, 20), (px, py)]] (currentColor ?w) (brushSize ?w)
                            ''round'' ''round'']\<rparr>)\<rparr>)"
    and h: "handle (Mousemove 90 70) ?w = draw (MouseEvent 90 70) ?w"
    and neg: "px < 0"
    using getPosition_not_clamped [OF c sizes ordinary ev outside, where ax = 20 and ay = 20]
      active attached outside
    by (auto simp: freshCanvas_def pow2_def)
  have p: "px = - 20" "py = 40"
    using r g by simp_all
  have tools: "currentColor ?w = ''#000000''" "brushSize ?w = 3"
    by (simp_all add: eval_defs fl_sample)
  have l: "lastPos (world_of (handle (Mousemove 90 70) ?w)) = (Num px, Num py)"
    by (simp only: h d world_of.simps) simp
  have b: "map_option bitmap (canvasRef (world_of (handle (Mousemove 90 70) ?w))) =
      Some (bitmap ?c @
        [Stroke [[(20, 20), (px, py)]] (currentColor ?w) (brushSize ?w) ''round'' ''round''])"
    by (simp only: h d world_of.simps) simp
  have blank: "bitmap ?c = []"
    by (simp add: freshCanvas_def)
  show ?thesis
    using g l b unfolding p tools blank by simp
qed

subsection \<open>Extending a stroke\<close>

text \<open>
  The handler of a move event is a no-op without an active session (\<open>draw_idle\<close>) and
  otherwise paints one stroke in the current colour and width after what was painted
  before (\<open>draw_active\<close>). What it paints does not stay. \<open>draw\<close> ends with
  \<^verbatim>\<open>setLastPos\<close>, \<^verbatim>\<open>lastPos\<close> is a dependency of the \<^verbatim>\<open>draw\<close> callback, and the
  callback is a dependency of the set-up effect: the render that follows runs that
  effect again, and its assignments to \<^verbatim>\<open>canvas.width\<close> and \<^verbatim>\<open>canvas.height\<close> reset
  the bitmap. A change of colour or width and the begin and the end of a stroke run it
  again in the same way. So an action either leaves the dependencies alone, and then
  has painted nothing, or is followed by a reset.
\<close>

lemma handle_canvas:
  assumes "canvasRef w = Some c" and "has2d c" and "bitmap c = []"
  shows "\<exists>d. canvasRef (world_of (handle a w)) = Some d \<and> has2d d
     \<and> (drawDeps (world_of (handle a w)) = drawDeps w \<longrightarrow> bitmap d = [])"
proof (cases a)
  case (Mousemove cx cy)
  show ?thesis
    using assms
    apply (simp add: Mousemove draw_def Let_def getContext_def preventDefault_def drawDeps_def
        setLastPos_def split: sum.splits)
    apply (cases "getPosition (MouseEvent cx cy) (w\<lparr>prevented := Suc (prevented w)\<rparr>)")
     apply (auto simp: beginPath_def stroke_def)
    subgoal for p q by (cases p; cases q; cases "fst (lastPos w)"; cases "snd (lastPos w)"; simp)
    done
next
  case (Touchmove ts)
  show ?thesis
    using assms
    apply (simp add: Touchmove draw_def Let_def getContext_def preventDefault_def drawDeps_def
        setLastPos_def split: sum.splits)
    apply (cases "getPosition (TouchEvent ts) (w\<lparr>prevented := Suc (prevented w)\<rparr>)")
     apply (auto simp: beginPath_def stroke_def)
    subgoal for p q by (cases p; cases q; cases "fst (lastPos w)"; cases "snd (lastPos w)"; simp)
    done
qed (use assms in \<open>auto simp: startDrawing_def clearCanvas_def getContext_def clearRect_def
       state_defs Let_def split: sum.splits\<close>)

lemma commit_canvas:
  assumes "canvasRef v = Some d" and "has2d d" and "renderedDraw v = Some dd"
    and "drawDeps v = dd \<longrightarrow> bitmap d = []"
  shows "\<exists>d'. canvasRef (commit v) = Some d' \<and> has2d d' \<and> bitmap d' = []"
  using assms
  by (auto simp: commit_def setupEffect_def setupCleanup_def completionEffect_def Let_def
        set_canvas_width_def set_canvas_height_def resetContext_def)

lemma run_blank:
  assumes "canvasRef w = Some c" and "has2d c" and "bitmap c = []"
    and "renderedDraw w = Some (drawDeps w)"
  shows "\<exists>d. canvasRef (run w acts) = Some d \<and> has2d d \<and> bitmap d = []"
  using assms
proof (induction acts arbitrary: w c)
  case Nil
  then show ?case by simp
next
  case (Cons a acts)
  obtain d where d: "canvasRef (world_of (handle a w)) = Some d" "has2d d"
      "drawDeps (world_of (handle a w)) = drawDeps w \<longrightarrow> bitmap d = []"
    using handle_canvas [OF Cons.prems(1-3), of a] by blast
  have r: "renderedDraw (world_of (handle a w)) = Some (drawDeps w)"
    by (simp add: handle_renderedDraw Cons.prems(4))
  obtain d' where d': "canvasRef (step a w) = Some d'" "has2d d'" "bitmap d' = []"
    using commit_canvas [OF d(1,2) r d(3)] by (auto simp: step_def)
  have s: "renderedDraw (step a w) = Some (drawDeps (step a w))"
    by (simp add: step_def commit_renderedDraw commit_drawDeps)
  show ?case
    using Cons.IH [OF d' s] by simp
qed

text \<open>After every sequence of actions the surface of a mounted component is blank.\<close>

lemma reachable_surface_blank:
  assumes "has2d c"
  shows "\<exists>d. canvasRef (run (mount p (Some c)) acts) = Some d \<and> has2d d \<and> bitmap d = []"
proof -
  have m: "\<exists>d. canvasRef (mount p (Some c)) = Some d \<and> has2d d \<and> bitmap d = []"
    using assms
    by (simp add: mount_def commit_def setupEffect_def setupCleanup_def completionEffect_def
          Let_def set_canvas_width_def set_canvas_height_def resetContext_def)
  have s: "renderedDraw (mount p (Some c)) = Some (drawDeps (mount p (Some c)))"
    by (simp add: mount_def commit_renderedDraw commit_drawDeps)
  from m obtain d where "canvasRef (mount p (Some c)) = Some d" "has2d d" "bitmap d = []"
    by blast
  then show ?thesis using run_blank s by blast
qed

text \<open>
  C1. The claim says that a move event of an active session draws one segment from
  the anchor to the new position in the current colour and width, and that segments
  already drawn are never altered afterwards. On the default component, shown at half
  size with its corner at (100, 50), a pointer-down at client (110, 60) followed by a
  move to (120, 70): the handler paints the segment from (20, 20) to (40, 40) in
  #000000 with width 3, and after the render that follows the surface is blank.
  After begin, two moves and the end of the stroke the surface is blank as well.
\<close>

theorem extend_stroke_erased_by_render:
  "map_option bitmap
     (canvasRef (world_of (handle (Mousemove 120 70)
        (step (Mousedown 110 60) (mount defaultProps (Some sampleCanvas)))))) =
     Some [Stroke [[(20, 20), (40, 40)]] ''#000000'' 3 ''round'' ''round'']
   \<and> map_option bitmap
       (canvasRef (step (Mousemove 120 70)
          (step (Mousedown 110 60) (mount defaultProps (Some sampleCanvas))))) = Some []
   \<and> map_option bitmap
       (canvasRef (run (mount defaultProps (Some sampleCanvas))
          [Mousedown 110 60, Mousemove 120 70, Mousemove 130 70, Mouseup])) = Some []"
  by (simp add: eval_defs fl_sample)

end
